theory Spec2Isabelle
  imports Complex_Main "HOL-Library.Word"
begin

section \<open>Strings of the source language\<close>

text \<open>
  A TypeScript string is a sequence of UTF-16 code units; \<open>length\<close>, \<open>substring\<close> and the
  regular expressions of the sources (none carries the \<open>u\<close> flag) all work on code units.
  \<open>js\<close> turns an ASCII literal into such a string.
\<close>

type_synonym jschar = "16 word"
type_synonym jsstring = "jschar list"

definition js :: "string \<Rightarrow> jsstring" where
  "js s = map of_char s"

text \<open>
  The ECMAScript character classes used below. \<open>isLineTerminator\<close> is the set that
  \<open>.\<close> refuses to match; \<open>isSpace\<close> is the class \<open>\s\<close>, which is also the set that
  \<open>String.prototype.trim\<close> strips (WhiteSpace and LineTerminator).
\<close>

definition isLineTerminator :: "jschar \<Rightarrow> bool" where
  "isLineTerminator c \<longleftrightarrow> c = 0x000A \<or> c = 0x000D \<or> c = 0x2028 \<or> c = 0x2029"

definition isSpace :: "jschar \<Rightarrow> bool" where
  "isSpace c \<longleftrightarrow>
     c = 0x0009 \<or> c = 0x000B \<or> c = 0x000C \<or> c = 0x0020 \<or> c = 0x00A0 \<or> c = 0x1680
     \<or> (0x2000 \<le> c \<and> c \<le> 0x200A) \<or> c = 0x202F \<or> c = 0x205F \<or> c = 0x3000
     \<or> c = 0xFEFF \<or> isLineTerminator c"

definition trim :: "jsstring \<Rightarrow> jsstring" where
  "trim s = rev (dropWhile isSpace (rev (dropWhile isSpace s)))"

definition LT :: jschar where "LT = 0x003C"
definition GT :: jschar where "GT = 0x003E"
definition SP :: jschar where "SP = 0x0020"

section \<open>Global regular-expression replacement\<close>

text \<open>
  \<open>s.replace(/re/g, r)\<close> scans \<open>s\<close> from the left. At each position the expression
  either matches, in which case the match is replaced by \<open>r\<close> and the scan resumes right
  after it, or it does not, in which case the code unit is kept and the scan moves on by one.
  A matcher \<open>m\<close> stands for one regular expression: applied to the rest of the string it
  returns what follows the match that starts there. No expression of the sources matches
  the empty string, so a matcher that would not consume anything is treated as a failure.
\<close>

function replaceAll :: "(jsstring \<Rightarrow> jsstring option) \<Rightarrow> jsstring \<Rightarrow> jsstring \<Rightarrow> jsstring" where
  "replaceAll m r [] = []"
| "replaceAll m r (c # cs) =
     (case m (c # cs) of
        None \<Rightarrow> c # replaceAll m r cs
      | Some rest \<Rightarrow>
          if length rest \<le> length cs then r @ replaceAll m r rest
          else c # replaceAll m r cs)"
  by pat_completeness auto
termination
  by (relation "measure (\<lambda>(m, r, s). length s)") auto

text \<open>
  Matching with the \<open>i\<close> flag and without the \<open>u\<close> flag compares canonicalised code
  units; canonicalisation never maps a code unit above 127 to one below 128, so a pattern
  letter \<open>a\<close>..\<open>z\<close> matches exactly itself and its ASCII capital, and every other pattern
  character of the sources matches only itself.
\<close>

definition eqIgnoreCase :: "jschar \<Rightarrow> jschar \<Rightarrow> bool" where
  "eqIgnoreCase p c \<longleftrightarrow> c = p \<or> (0x0061 \<le> p \<and> p \<le> 0x007A \<and> c = p - 0x0020)"

fun stripPrefixCI :: "jsstring \<Rightarrow> jsstring \<Rightarrow> jsstring option" where
  "stripPrefixCI [] s = Some s"
| "stripPrefixCI (p # ps) [] = None"
| "stripPrefixCI (p # ps) (c # cs) = (if eqIgnoreCase p c then stripPrefixCI ps cs else None)"

text \<open>
  \<open>[^>]*>\<close>: the starred class is greedy but cannot step over a \<open>>\<close>, so the only way
  to match is to run up to the first \<open>>\<close>, which must exist.
\<close>

definition afterFirstGT :: "jsstring \<Rightarrow> jsstring option" where
  "afterFirstGT s = (if GT \<in> set s then Some (tl (dropWhile (\<lambda>c. c \<noteq> GT) s)) else None)"

text \<open>
  \<open>.*?closing\<close>: the lazy star tries the closing literal at every position in turn and
  gives up at the first line terminator, which \<open>.\<close> does not match.
\<close>

fun lazyUntil :: "jsstring \<Rightarrow> jsstring \<Rightarrow> jsstring option" where
  "lazyUntil closing [] = stripPrefixCI closing []"
| "lazyUntil closing (c # cs) =
     (case stripPrefixCI closing (c # cs) of
        Some rest \<Rightarrow> Some rest
      | None \<Rightarrow> if isLineTerminator c then None else lazyUntil closing cs)"

text \<open>\<open>/<name[^>]*>.*?<\/name>/i\<close> for \<open>name\<close> = \<open>script\<close> or \<open>style\<close>.\<close>

definition matchBlock :: "jsstring \<Rightarrow> jsstring \<Rightarrow> jsstring option" where
  "matchBlock name s =
     (case stripPrefixCI (LT # name) s of
        None \<Rightarrow> None
      | Some r1 \<Rightarrow>
          (case afterFirstGT r1 of
             None \<Rightarrow> None
           | Some r2 \<Rightarrow> lazyUntil (js ''</'' @ name @ js ''>'') r2))"

text \<open>\<open>/<[^>]*>/\<close> and \<open>/\s+/\<close>.\<close>

definition matchTag :: "jsstring \<Rightarrow> jsstring option" where
  "matchTag s = (case s of [] \<Rightarrow> None | c # cs \<Rightarrow> if c = LT then afterFirstGT cs else None)"

definition matchSpaces :: "jsstring \<Rightarrow> jsstring option" where
  "matchSpaces s =
     (case s of [] \<Rightarrow> None | c # cs \<Rightarrow> if isSpace c then Some (dropWhile isSpace cs) else None)"

section \<open>Content Normalizer: cleaning\<close>

text \<open>
  \<open>cleanHtmlContent\<close> of \<open>lib/mongodb.ts\<close>: the empty string is returned as it is; otherwise
  script blocks and style blocks are removed, every remaining tag becomes a blank, runs of
  white space collapse to one blank and the result is trimmed.
\<close>

definition cleanHtmlContent :: "jsstring \<Rightarrow> jsstring" where
  "cleanHtmlContent html =
     (if html = [] then []
      else trim
             (replaceAll matchSpaces [SP]
               (replaceAll matchTag [SP]
                 (replaceAll (matchBlock (js ''style'')) []
                   (replaceAll (matchBlock (js ''script'')) [] html)))))"

text \<open>
  Two shapes of cleaned text, used in the proofs: \<open>no_tag\<close> says that no \<open><\<close> is followed
  anywhere by a \<open>>\<close>; \<open>spaced\<close> says that the only white space is the single blank, never
  doubled.
\<close>

fun no_tag :: "jsstring \<Rightarrow> bool" where
  "no_tag [] = True"
| "no_tag (c # cs) = ((c = LT \<longrightarrow> GT \<notin> set cs) \<and> no_tag cs)"

fun spaced :: "jsstring \<Rightarrow> bool" where
  "spaced [] = True"
| "spaced (c # cs) =
     ((isSpace c \<longrightarrow> c = SP \<and> (case cs of [] \<Rightarrow> True | d # ds \<Rightarrow> \<not> isSpace d)) \<and> spaced cs)"

section \<open>Source records\<close>

text \<open>
  \<open>MongoPost\<close> of \<open>types/mongodb.ts\<close>, restricted to the fields that the pipeline reads.
  An optional field is an \<open>option\<close>. \<open>post_id\<close> is \<open>_id\<close>, an \<open>ObjectId\<close>, kept as the
  string that \<open>toString()\<close> returns; \<open>post_text\<close> and \<open>post_body\<close> are the untyped
  alternates \<open>(post as any).text\<close> and \<open>(post as any).body\<close>. A \<open>Date\<close> is its time value,
  or invalid (the one state in which \<open>toISOString\<close> throws).
\<close>

datatype Date = TimeValue int | InvalidDate

record MongoContent =
  content_text :: "jsstring option"

record MongoPost =
  post_id :: jsstring
  post_title :: jsstring
  post_summary :: "jsstring option"
  post_seo_description :: "jsstring option"
  post_slug :: "jsstring option"
  post_categories :: "jsstring list option"
  post_topics :: "jsstring list option"
  post_hit :: "int option"
  post_status :: "int option"
  post_published_at :: "Date option"
  post_created_at :: Date
  post_content :: "MongoContent option"
  post_text :: "jsstring option"
  post_body :: "jsstring option"

text \<open>
  \<open>x || ''\<close> on an optional string: \<open>undefined\<close> and the empty string are both falsy.
  \<open>contentText\<close> is \<open>post.content?.text\<close>.
\<close>

definition orEmpty :: "jsstring option \<Rightarrow> jsstring" where
  "orEmpty x = (case x of None \<Rightarrow> [] | Some s \<Rightarrow> s)"

definition contentText :: "MongoPost \<Rightarrow> jsstring option" where
  "contentText post = (case post_content post of None \<Rightarrow> None | Some c \<Rightarrow> content_text c)"

text \<open>
  Decimal rendering of numbers inside template literals, and \<open>Array.prototype.join\<close>.
  \<open>showInt\<close> prints every digit, as the runtime does for integers below \<open>10^21\<close> in
  magnitude; the exponent form that it prints beyond is not reproduced.
\<close>

fun showNat :: "nat \<Rightarrow> jsstring" where
  "showNat n =
     (if n < 10 then [of_nat (48 + n)]
      else showNat (n div 10) @ [of_nat (48 + n mod 10)])"

definition showInt :: "int \<Rightarrow> jsstring" where
  "showInt i = (if i < 0 then js ''-'' @ showNat (nat (- i)) else showNat (nat i))"

definition showStatus :: "int option \<Rightarrow> jsstring" where
  "showStatus st = (case st of None \<Rightarrow> js ''undefined'' | Some i \<Rightarrow> showInt i)"

fun joinWith :: "jsstring \<Rightarrow> jsstring list \<Rightarrow> jsstring" where
  "joinWith sep [] = []"
| "joinWith sep [x] = x"
| "joinWith sep (x # y # ys) = x @ sep @ joinWith sep (y # ys)"

section \<open>Content Normalizer: validation\<close>

record Validation =
  isValid :: bool
  issues :: "jsstring list"

text \<open>
  \<open>validatePostContent\<close> exists in two versions. The first is the one of \<open>lib/mongodb.ts\<close>:
  the body is \<open>content.text\<close> only, at least 50 code units once cleaned, the title at most
  200, the status exactly 1. Each \<open>issues.push\<close> is one optional element of the list.
\<close>

definition validatePostContent :: "MongoPost \<Rightarrow> Validation" where
  "validatePostContent post =
     (let issues1 =
            (if post_title post = [] \<or> length (trim (post_title post)) = 0
             then [js ''Missing or empty title''] else []);
          issues2 =
            (if orEmpty (contentText post) = [] \<or> length (trim (orEmpty (contentText post))) = 0
             then [js ''Missing or empty content''] else []);
          cleanContent = cleanHtmlContent (orEmpty (contentText post));
          issues3 =
            (if length cleanContent < 50
             then [js ''Content too short (minimum 50 characters)''] else []);
          issues4 =
            (if post_title post \<noteq> [] \<and> length (post_title post) > 200
             then [js ''Title too long (maximum 200 characters)''] else []);
          issues5 =
            (if post_status post \<noteq> Some 1
             then [js ''Post status is '' @ showStatus (post_status post) @ js '' (not published)'']
             else []);
          issues = issues1 @ issues2 @ issues3 @ issues4 @ issues5
      in \<lparr> isValid = (length issues = 0), issues = issues \<rparr>)"

text \<open>
  The second version (the relaxed one) looks for the body in \<open>content.text\<close>, \<open>text\<close>,
  \<open>body\<close>, \<open>summary\<close> and \<open>seo_description\<close>, in this order, taking the first that is
  truthy; it asks for 5 code units, a title of at most 500, and accepts the statuses
  \<open>undefined\<close>, 1 and 0. The transformer of the vector path resolves the body by the same
  chain, here \<open>firstContent\<close>.
\<close>

definition firstContent :: "MongoPost \<Rightarrow> jsstring" where
  "firstContent post =
     (if orEmpty (contentText post) \<noteq> [] then orEmpty (contentText post)
      else if orEmpty (post_text post) \<noteq> [] then orEmpty (post_text post)
      else if orEmpty (post_body post) \<noteq> [] then orEmpty (post_body post)
      else if orEmpty (post_summary post) \<noteq> [] then orEmpty (post_summary post)
      else if orEmpty (post_seo_description post) \<noteq> [] then orEmpty (post_seo_description post)
      else [])"

definition validatePostContent_relaxed :: "MongoPost \<Rightarrow> Validation" where
  "validatePostContent_relaxed post =
     (let issues1 =
            (if post_title post = [] \<or> length (trim (post_title post)) = 0
             then [js ''Missing or empty title''] else []);
          contentText = firstContent post;
          issues2 =
            (if contentText = [] \<or> length (trim contentText) = 0
             then [js ''Missing or empty content in all possible fields''] else []);
          cleanContent = cleanHtmlContent contentText;
          issues3 =
            (if length cleanContent < 5
             then [js ''Content too short ('' @ showNat (length cleanContent)
                     @ js '' chars, minimum 5 characters)'']
             else []);
          issues4 =
            (if post_title post \<noteq> [] \<and> length (post_title post) > 500
             then [js ''Title too long (maximum 500 characters)''] else []);
          issues5 =
            (if post_status post \<noteq> None \<and> post_status post \<noteq> Some 1 \<and> post_status post \<noteq> Some 0
             then [js ''Post status is '' @ showStatus (post_status post) @ js '' (unusual status)'']
             else []);
          issues = issues1 @ issues2 @ issues3 @ issues4 @ issues5
      in \<lparr> isValid = (length issues = 0), issues = issues \<rparr>)"

text \<open>
  The validation rules as the specification words them, for comparison with the two
  functions above. The body is the first candidate field that holds a non-empty string:
  the primary rich-text field, then the plain alternates, then the summary, then the SEO
  description; a title or body that is blank counts as empty.
\<close>

datatype mode = Strict | Permissive

definition minBody :: "mode \<Rightarrow> nat" where
  "minBody m = (case m of Strict \<Rightarrow> 50 | Permissive \<Rightarrow> 5)"

definition maxTitle :: "mode \<Rightarrow> nat" where
  "maxTitle m = (case m of Strict \<Rightarrow> 200 | Permissive \<Rightarrow> 500)"

definition statusAccepted :: "mode \<Rightarrow> int option \<Rightarrow> bool" where
  "statusAccepted m st =
     (case m of
        Strict \<Rightarrow> st = Some 1
      | Permissive \<Rightarrow> st = Some 0 \<or> st = Some 1 \<or> st = None)"

definition candidateFields :: "MongoPost \<Rightarrow> jsstring option list" where
  "candidateFields post =
     [contentText post, post_text post, post_body post, post_summary post, post_seo_description post]"

definition resolveBody :: "jsstring option list \<Rightarrow> jsstring option" where
  "resolveBody cands =
     (case filter (\<lambda>s. s \<noteq> []) (map orEmpty cands) of [] \<Rightarrow> None | s # rest \<Rightarrow> Some s)"

definition spec_rules :: "mode \<Rightarrow> jsstring \<Rightarrow> jsstring option \<Rightarrow> int option \<Rightarrow> bool" where
  "spec_rules m title body st \<longleftrightarrow>
     trim title \<noteq> []
     \<and> (case body of None \<Rightarrow> False
         | Some b \<Rightarrow> trim b \<noteq> [] \<and> minBody m \<le> length (cleanHtmlContent b))
     \<and> length title \<le> maxTitle m
     \<and> statusAccepted m st"

definition spec_isValid :: "mode \<Rightarrow> MongoPost \<Rightarrow> bool" where
  "spec_isValid m post =
     spec_rules m (post_title post) (resolveBody (candidateFields post)) (post_status post)"

text \<open>A post for concrete runs: everything optional absent, status published.\<close>

definition emptyPost :: MongoPost where
  "emptyPost =
     \<lparr> post_id = js ''p0'', post_title = [], post_summary = None, post_seo_description = None,
       post_slug = None, post_categories = None, post_topics = None, post_hit = None,
       post_status = Some 1, post_published_at = None, post_created_at = TimeValue 0,
       post_content = None, post_text = None, post_body = None \<rparr>"

definition withContent :: "jsstring \<Rightarrow> MongoPost \<Rightarrow> MongoPost" where
  "withContent s post = post\<lparr> post_content := Some \<lparr> content_text = Some s \<rparr> \<rparr>"

definition summaryOnlyPost :: MongoPost where
  "summaryOnlyPost =
     emptyPost\<lparr> post_title := js ''Budget vote'',
       post_summary := Some (js ''The council met on Monday and approved the new budget for schools.'') \<rparr>"

section \<open>Target records\<close>

text \<open>
  \<open>TransformationResult\<close> of \<open>types/mongodb.ts\<close> and its \<open>data\<close>, the relational article.
  The source metadata keep the fields computed by the transformer; the remaining entries
  of the blob are copies of optional fields of the post and the clock. \<open>tr_skipped\<close> is the
  truthiness of \<open>skipped\<close>.
\<close>

record SourceMetadata =
  meta_mongo_id :: jsstring
  meta_slug :: "jsstring option"
  meta_categories :: "jsstring list"
  meta_topics :: "jsstring list"
  meta_hit_count :: int
  meta_original_raw_content :: jsstring

record ArticleData =
  art_title :: jsstring
  art_content :: jsstring
  art_summary :: "jsstring option"
  art_published_at :: "Date option"
  art_channel_id :: jsstring
  art_source_metadata :: SourceMetadata

record TransformationResult =
  tr_success :: bool
  tr_data :: "ArticleData option"
  tr_error :: "jsstring option"
  tr_skipped :: bool
  tr_skip_reason :: "jsstring option"

text \<open>
  \<open>NewsArticleVector\<close> of \<open>lib/vector-service.ts\<close>, the payload stored with a point, and
  the point. The payload keeps the publication date as the time value that \<open>toISOString\<close>
  prints.

  A number is \<open>NaN\<close> or a finite value. Finite values are taken as exact reals:
  rounding and overflow are outside the model, and what is proved below about numbers
  depends only on how \<open>NaN\<close> arises and spreads.
\<close>

datatype number = NaN | Num real

type_synonym vector = "number list"

record NewsArticleVector =
  vec_id :: jsstring
  vec_channel_id :: jsstring
  vec_title :: jsstring
  vec_content :: jsstring
  vec_published_at :: Date
  vec_categories :: "jsstring list"
  vec_topics :: "jsstring list"
  vec_political_score :: "int option"
  vec_event_category :: "jsstring option"
  vec_source_url :: "jsstring option"
  vec_original_mongo_id :: "jsstring option"

record Payload =
  pl_channel_id :: jsstring
  pl_title :: jsstring
  pl_content :: jsstring
  pl_content_preview :: jsstring
  pl_published_at :: int
  pl_categories :: "jsstring list"
  pl_topics :: "jsstring list"
  pl_political_score :: "int option"
  pl_event_category :: "jsstring option"
  pl_source_url :: "jsstring option"
  pl_original_mongo_id :: "jsstring option"

record VectorPoint =
  pt_id :: jsstring
  pt_vector :: vector
  pt_payload :: Payload

record NewsChannel =
  channel_id :: jsstring
  channel_name :: jsstring

record CollectionInfo =
  info_points_count :: "nat option"
  info_indexed_points_count :: "nat option"
  info_status :: jsstring

section \<open>The outside world\<close>

text \<open>
  A thrown value is an \<open>Error\<close> with its message or something else;
  \<open>messageOr d e\<close> is \<open>e instanceof Error ? e.message : d\<close>.
\<close>

datatype thrown = Error jsstring | Thrown

definition messageOr :: "jsstring \<Rightarrow> thrown \<Rightarrow> jsstring" where
  "messageOr d e = (case e of Error m \<Rightarrow> m | Thrown \<Rightarrow> d)"

text \<open>
  The document store, the relational store, the vector index and the embedding service
  are outside the repository. Every request that the code sends to one of them is a
  \<open>call\<close>; the state carries the list of the calls made so far, oldest first. What a
  request returns is decided by the environment, a record of functions that see the whole
  history, so that a store may answer differently after a write or fail at any moment.
  The environment also holds \<open>String.prototype.toLowerCase\<close>, a built-in of the runtime
  whose Unicode tables are not reproduced here.

  The declared type of a record is not checked when the driver hands over a document. A
  document that holds a value of another type where a transformer applies a string method
  (a title that is a number, a \<open>content.text\<close> that is an object) makes the body of that
  transformer throw a \<open>TypeError\<close>. \<open>MongoPost\<close> holds what is well typed in a document;
  \<open>transformPost_throws\<close> and \<open>transformPostToVector_throws\<close> give the exception, if any,
  that the body of the relational and of the vector transformer raises on the document
  behind a record. The two validators read different fields, hence two functions.
\<close>

record MongoQuery =
  q_status :: int
  q_published_gte :: "Date option"
  q_published_lte :: "Date option"
  q_id_gt :: "jsstring option"

datatype call =
    MongoConnect
  | MongoClose
  | MongoPing
  | MongoCountDocuments MongoQuery
  | MongoFind MongoQuery nat nat
  | ChannelsGetAll
  | ChannelsCreate jsstring
  | ArticlesCreate ArticleData
  | RandomUUID
  | EmbeddingsCreate jsstring
  | QdrantGetCollections
  | QdrantCreateCollection jsstring nat
  | QdrantCreatePayloadIndex jsstring jsstring
  | QdrantGetCollection jsstring
  | QdrantUpsert jsstring "VectorPoint list"

record env =
  mongo_connect :: "call list \<Rightarrow> thrown option"
  mongo_close :: "call list \<Rightarrow> thrown option"
  mongo_ping :: "call list \<Rightarrow> thrown option"
  mongo_countDocuments :: "call list \<Rightarrow> MongoQuery \<Rightarrow> thrown + nat"
  mongo_find :: "call list \<Rightarrow> MongoQuery \<Rightarrow> nat \<Rightarrow> nat \<Rightarrow> thrown + MongoPost list"
  channels_getAll :: "call list \<Rightarrow> thrown + NewsChannel list"
  channels_create :: "call list \<Rightarrow> jsstring \<Rightarrow> thrown + NewsChannel"
  articles_create :: "call list \<Rightarrow> ArticleData \<Rightarrow> thrown option"
  random_uuid :: "call list \<Rightarrow> jsstring"
  embeddings_create :: "call list \<Rightarrow> jsstring \<Rightarrow> thrown + vector list"
  qdrant_getCollections :: "call list \<Rightarrow> thrown + jsstring list"
  qdrant_createCollection :: "call list \<Rightarrow> jsstring \<Rightarrow> nat \<Rightarrow> thrown option"
  qdrant_createPayloadIndex :: "call list \<Rightarrow> jsstring \<Rightarrow> jsstring \<Rightarrow> thrown option"
  qdrant_getCollection :: "call list \<Rightarrow> jsstring \<Rightarrow> thrown + CollectionInfo"
  qdrant_upsert :: "call list \<Rightarrow> jsstring \<Rightarrow> VectorPoint list \<Rightarrow> thrown option"
  toLowerCase :: "jsstring \<Rightarrow> jsstring"
  transformPost_throws :: "MongoPost \<Rightarrow> thrown option"
  transformPostToVector_throws :: "MongoPost \<Rightarrow> thrown option"

text \<open>
  The mutable fields of the services: \<open>MongoDBService.client\<close> and \<open>.db\<close> (set or
  \<open>null\<close>) and the channel id cached by the relational \<open>ETLService\<close>.
\<close>

record state =
  calls :: "call list"
  mongo_client :: bool
  mongo_db :: bool
  defaultChannelId :: "jsstring option"

definition issue :: "call \<Rightarrow> state \<Rightarrow> state" where
  "issue c st = st\<lparr> calls := calls st @ [c] \<rparr>"

definition initialState :: "state" where
  "initialState = \<lparr> calls = [], mongo_client = False, mongo_db = False, defaultChannelId = None \<rparr>"

section \<open>Source Reader\<close>

text \<open>
  \<open>MongoDBService\<close> of \<open>lib/mongodb.ts\<close>. \<open>connect\<close> creates the client, then awaits the
  connection and only then sets \<open>db\<close>; \<open>disconnect\<close> closes a client if there is one.
\<close>

definition connect :: "env \<Rightarrow> state \<Rightarrow> (thrown + unit) \<times> state" where
  "connect env st =
     (case mongo_connect env (calls st) of
        Some e \<Rightarrow> (Inl e, (issue MongoConnect st)\<lparr> mongo_client := True \<rparr>)
      | None \<Rightarrow> (Inr (), (issue MongoConnect st)\<lparr> mongo_client := True, mongo_db := True \<rparr>))"

definition disconnect :: "env \<Rightarrow> state \<Rightarrow> (thrown + unit) \<times> state" where
  "disconnect env st =
     (if mongo_client st then
        (case mongo_close env (calls st) of
           Some e \<Rightarrow> (Inl e, issue MongoClose st)
         | None \<Rightarrow> (Inr (), (issue MongoClose st)\<lparr> mongo_client := False, mongo_db := False \<rparr>))
      else (Inr (), st))"

definition healthCheck :: "env \<Rightarrow> state \<Rightarrow> bool \<times> state" where
  "healthCheck env st =
     (if \<not> mongo_db st then (False, st)
      else (case mongo_ping env (calls st) of
              Some e \<Rightarrow> (False, issue MongoPing st)
            | None \<Rightarrow> (True, issue MongoPing st)))"

definition notConnected :: thrown where
  "notConnected = Error (js ''Database not connected'')"

record FetchOptions =
  fo_limit :: "nat option"
  fo_skip :: "nat option"
  fo_fromDate :: "Date option"
  fo_toDate :: "Date option"
  fo_status :: "int option"
  fo_lastId :: "jsstring option"

text \<open>
  \<open>fetchPosts\<close>: defaults 100, 0 and status 1; the date range is part of the query when one
  of its ends is given; the cursor is part of the query when \<open>lastId\<close> is truthy. The
  driver call sorts by \<open>_id\<close>, skips and limits.
\<close>

definition fetchPosts ::
  "env \<Rightarrow> FetchOptions \<Rightarrow> state \<Rightarrow> (thrown + MongoPost list) \<times> state" where
  "fetchPosts env options st =
     (let limit = (case fo_limit options of None \<Rightarrow> 100 | Some n \<Rightarrow> n);
          skip = (case fo_skip options of None \<Rightarrow> 0 | Some n \<Rightarrow> n);
          status = (case fo_status options of None \<Rightarrow> 1 | Some s \<Rightarrow> s)
      in if \<not> mongo_db st then (Inl notConnected, st)
         else
           (let query =
                  \<lparr> q_status = status,
                    q_published_gte = fo_fromDate options,
                    q_published_lte = fo_toDate options,
                    q_id_gt = (if orEmpty (fo_lastId options) \<noteq> [] then fo_lastId options else None) \<rparr>
            in (mongo_find env (calls st) query skip limit, issue (MongoFind query skip limit) st)))"

definition countQuery :: "Date option \<Rightarrow> Date option \<Rightarrow> MongoQuery" where
  "countQuery fromDate toDate =
     \<lparr> q_status = 1, q_published_gte = fromDate, q_published_lte = toDate, q_id_gt = None \<rparr>"

definition getPostCount ::
  "env \<Rightarrow> Date option \<Rightarrow> Date option \<Rightarrow> state \<Rightarrow> (thrown + nat) \<times> state" where
  "getPostCount env fromDate toDate st =
     (if \<not> mongo_db st then (Inl notConnected, st)
      else (mongo_countDocuments env (calls st) (countQuery fromDate toDate),
            issue (MongoCountDocuments (countQuery fromDate toDate)) st))"

text \<open>The later version of \<open>getPostCount\<close> first makes sure that there is a connection.\<close>

definition getPostCount_connecting ::
  "env \<Rightarrow> Date option \<Rightarrow> Date option \<Rightarrow> state \<Rightarrow> (thrown + nat) \<times> state" where
  "getPostCount_connecting env fromDate toDate st =
     (if \<not> mongo_db st then
        (case healthCheck env st of
           (True, st1) \<Rightarrow> getPostCount env fromDate toDate st1
         | (False, st1) \<Rightarrow>
             (case connect env st1 of
                (Inl e, st2) \<Rightarrow> (Inl e, st2)
              | (Inr u, st2) \<Rightarrow> getPostCount env fromDate toDate st2))
      else getPostCount env fromDate toDate st)"

section \<open>Record Transformer, relational path\<close>

text \<open>
  \<open>ETLService.transformPost\<close>. A record that fails validation is skipped. Otherwise the
  body is \<open>content.text\<close>, cleaned; the summary is the post's summary, else its SEO
  description, else, when the cleaned body is not empty, the first 200 code units of the
  cleaned body, with \<open>...\<close> appended when the body is longer. The validator is the one of
  \<open>lib/mongodb.ts\<close>.

  \<open>transformPost\<close> is the body of the \<open>try\<close> block on a well-typed record, where nothing
  throws. \<open>transformationError\<close> is the \<open>catch\<close> branch: \<open>success: false\<close> with an
  \<open>error\<close> and no \<open>skipped\<close> flag. \<open>transformPost_try\<close> is the whole function on the
  document behind a record: the \<open>catch\<close> branch when the body throws, the result of the
  body otherwise. An exception discards whatever the body had computed before it.
\<close>

definition transformPost :: "MongoPost \<Rightarrow> jsstring \<Rightarrow> TransformationResult" where
  "transformPost mongoPost channelId =
     (let validation = validatePostContent mongoPost
      in if \<not> isValid validation then
           \<lparr> tr_success = False, tr_data = None, tr_error = None, tr_skipped = True,
             tr_skip_reason =
               Some (js ''Validation failed: '' @ joinWith (js '', '') (issues validation)) \<rparr>
         else
           (let rawContent = orEmpty (contentText mongoPost);
                cleanContent = cleanHtmlContent rawContent;
                summary0 =
                  (if orEmpty (post_summary mongoPost) \<noteq> [] then orEmpty (post_summary mongoPost)
                   else if orEmpty (post_seo_description mongoPost) \<noteq> []
                   then orEmpty (post_seo_description mongoPost)
                   else []);
                summary =
                  (if summary0 = [] \<and> cleanContent \<noteq> [] then
                     take 200 cleanContent @ (if length cleanContent > 200 then js ''...'' else [])
                   else summary0);
                sourceMetadata =
                  \<lparr> meta_mongo_id = post_id mongoPost,
                    meta_slug = post_slug mongoPost,
                    meta_categories = (case post_categories mongoPost of None \<Rightarrow> [] | Some cs \<Rightarrow> cs),
                    meta_topics = (case post_topics mongoPost of None \<Rightarrow> [] | Some ts \<Rightarrow> ts),
                    meta_hit_count = (case post_hit mongoPost of None \<Rightarrow> 0 | Some h \<Rightarrow> h),
                    meta_original_raw_content = rawContent \<rparr>
            in \<lparr> tr_success = True,
                 tr_data =
                   Some \<lparr> art_title = post_title mongoPost,
                          art_content = cleanContent,
                          art_summary = (if summary = [] then None else Some summary),
                          art_published_at = post_published_at mongoPost,
                          art_channel_id = channelId,
                          art_source_metadata = sourceMetadata \<rparr>,
                 tr_error = None, tr_skipped = False, tr_skip_reason = None \<rparr>))"

definition transformationError :: "thrown \<Rightarrow> TransformationResult" where
  "transformationError e =
     \<lparr> tr_success = False, tr_data = None,
       tr_error = Some (js ''Transformation error: '' @ messageOr (js ''Unknown error'') e),
       tr_skipped = False, tr_skip_reason = None \<rparr>"

definition transformPost_try :: "env \<Rightarrow> MongoPost \<Rightarrow> jsstring \<Rightarrow> TransformationResult" where
  "transformPost_try env mongoPost channelId =
     (case transformPost_throws env mongoPost of
        Some e \<Rightarrow> transformationError e
      | None \<Rightarrow> transformPost mongoPost channelId)"

section \<open>ETL Orchestrator, relational path\<close>

record BatchResults =
  successful :: nat
  failed :: nat
  skipped :: nat
  errors :: "jsstring list"

definition noResults :: BatchResults where
  "noResults = \<lparr> successful = 0, failed = 0, skipped = 0, errors = [] \<rparr>"

text \<open>
  The body of the loop of \<open>processBatch\<close>, split in two: \<open>processTransformed\<close> is what
  happens to a record once \<open>transformPost\<close> has returned (with the result of its body or
  of its \<open>catch\<close> branch), \<open>processPost\<close> is the whole body. The article handed to
  \<open>newsArticlesApi.create\<close> is the transformed data (with
  \<open>analysis_completed: false\<close> and the clock added); a throw of that call is caught in
  the loop body.
\<close>

definition postError :: "MongoPost \<Rightarrow> jsstring \<Rightarrow> jsstring" where
  "postError post msg = js ''Post '' @ post_id post @ js '': '' @ msg"

definition recordFailure :: "jsstring \<Rightarrow> BatchResults \<Rightarrow> BatchResults" where
  "recordFailure msg results =
     results\<lparr> failed := failed results + 1, errors := errors results @ [msg] \<rparr>"

definition processTransformed ::
  "env \<Rightarrow> MongoPost \<Rightarrow> TransformationResult \<Rightarrow> BatchResults \<times> state
     \<Rightarrow> BatchResults \<times> state" where
  "processTransformed env post transformation acc =
     (case acc of (results, st) \<Rightarrow>
        if \<not> tr_success transformation then
          (if tr_skipped transformation then (results\<lparr> skipped := skipped results + 1 \<rparr>, st)
           else (recordFailure
                   (postError post
                      (case tr_error transformation of None \<Rightarrow> js ''undefined'' | Some e \<Rightarrow> e))
                   results, st))
        else
          (case tr_data transformation of
             None \<Rightarrow> (recordFailure (postError post (js ''No transformation data'')) results, st)
           | Some d \<Rightarrow>
               (case articles_create env (calls st) d of
                  None \<Rightarrow> (results\<lparr> successful := successful results + 1 \<rparr>, issue (ArticlesCreate d) st)
                | Some e \<Rightarrow>
                    (recordFailure (postError post (messageOr (js ''Unknown error'') e)) results,
                     issue (ArticlesCreate d) st))))"

definition processPost ::
  "env \<Rightarrow> jsstring \<Rightarrow> MongoPost \<Rightarrow> BatchResults \<times> state \<Rightarrow> BatchResults \<times> state" where
  "processPost env channelId post acc =
     processTransformed env post (transformPost_try env post channelId) acc"

fun processPosts ::
  "env \<Rightarrow> jsstring \<Rightarrow> MongoPost list \<Rightarrow> BatchResults \<times> state \<Rightarrow> BatchResults \<times> state" where
  "processPosts env channelId [] acc = acc"
| "processPosts env channelId (post # posts) acc =
     processPosts env channelId posts (processPost env channelId post acc)"

definition processBatch ::
  "env \<Rightarrow> MongoPost list \<Rightarrow> jsstring \<Rightarrow> state \<Rightarrow> BatchResults \<times> state" where
  "processBatch env posts channelId st = processPosts env channelId posts (noResults, st)"

text \<open>
  \<open>ensureDefaultChannel\<close>: the cached id if there is one; else the channel of that name
  among all channels; else a new channel. A failure of either request is thrown on.
\<close>

definition ensureDefaultChannel ::
  "env \<Rightarrow> jsstring \<Rightarrow> state \<Rightarrow> (thrown + jsstring) \<times> state" where
  "ensureDefaultChannel env channelName st =
     (if orEmpty (defaultChannelId st) \<noteq> [] then (Inr (orEmpty (defaultChannelId st)), st)
      else
        (case channels_getAll env (calls st) of
           Inl e \<Rightarrow> (Inl e, issue ChannelsGetAll st)
         | Inr channels \<Rightarrow>
             (let st1 = issue ChannelsGetAll st
              in case find (\<lambda>c. channel_name c = channelName) channels of
                   Some existingChannel \<Rightarrow>
                     (Inr (channel_id existingChannel),
                      st1\<lparr> defaultChannelId := Some (channel_id existingChannel) \<rparr>)
                 | None \<Rightarrow>
                     (case channels_create env (calls st1) channelName of
                        Inl e \<Rightarrow> (Inl e, issue (ChannelsCreate channelName) st1)
                      | Inr newChannel \<Rightarrow>
                          (Inr (channel_id newChannel),
                           (issue (ChannelsCreate channelName) st1)
                             \<lparr> defaultChannelId := Some (channel_id newChannel) \<rparr>)))))"

text \<open>
  \<open>MigrationJob\<close> of \<open>types/mongodb.ts\<close>, without the fields read off the clock (\<open>id\<close>,
  \<open>started_at\<close>, \<open>completed_at\<close>) and the constant \<open>source_db\<close>.
\<close>

datatype JobStatus = Pending | Running | Completed | Failed

record MigrationJob =
  job_target_channel_id :: jsstring
  job_status :: JobStatus
  job_total_records :: nat
  job_processed_records :: nat
  job_failed_records :: nat
  job_error_message :: "jsstring option"
  job_last_processed_id :: "jsstring option"

record MigrateOptions =
  mo_fromDate :: "Date option"
  mo_toDate :: "Date option"
  mo_channelName :: "jsstring option"
  mo_dryRun :: "bool option"

text \<open>The local variables of the batch loop of \<open>migrateAllPosts\<close>.\<close>

record LoopVars =
  lv_job :: MigrationJob
  lv_lastId :: "jsstring option"
  lv_totalProcessed :: nat
  lv_totalFailed :: nat
  lv_allErrors :: "jsstring list"

text \<open>The argument of \<open>fetchPosts\<close> in the loop: the batch size, the date range, the cursor.\<close>

definition batchOptions :: "nat \<Rightarrow> MigrateOptions \<Rightarrow> jsstring option \<Rightarrow> FetchOptions" where
  "batchOptions batchSize options lastId =
     \<lparr> fo_limit = Some batchSize, fo_skip = None, fo_fromDate = mo_fromDate options,
       fo_toDate = mo_toDate options, fo_status = None, fo_lastId = lastId \<rparr>"

text \<open>
  One turn of the \<open>while (hasMore)\<close> loop. The flag returned says whether the loop goes on:
  it stops on an empty batch and on a throw of \<open>fetchPosts\<close>, which marks the job failed.
  \<open>processBatch\<close> cannot throw. The pause between batches has no counterpart.
\<close>

definition batchTurn ::
  "env \<Rightarrow> nat \<Rightarrow> MigrateOptions \<Rightarrow> jsstring \<Rightarrow> LoopVars \<times> state
     \<Rightarrow> bool \<times> LoopVars \<times> state" where
  "batchTurn env batchSize options channelId acc =
     (case acc of (lv, st) \<Rightarrow>
        (case fetchPosts env (batchOptions batchSize options (lv_lastId lv)) st of
           (Inl e, st1) \<Rightarrow>
             (False,
              lv\<lparr> lv_job := (lv_job lv)\<lparr> job_status := Failed,
                     job_error_message := Some (messageOr (js ''Unknown error'') e) \<rparr> \<rparr>,
              st1)
         | (Inr posts, st1) \<Rightarrow>
             if length posts = 0 then (False, lv, st1)
             else
               (case processBatch env posts channelId st1 of
                  (batchResults, st2) \<Rightarrow>
                    (let totalProcessed =
                           lv_totalProcessed lv + (successful batchResults + skipped batchResults);
                         totalFailed = lv_totalFailed lv + failed batchResults;
                         lastId = post_id (last posts)
                     in (True,
                         \<lparr> lv_job = (lv_job lv)\<lparr> job_processed_records := totalProcessed,
                                    job_failed_records := totalFailed,
                                    job_last_processed_id := Some lastId \<rparr>,
                           lv_lastId = Some lastId,
                           lv_totalProcessed = totalProcessed,
                           lv_totalFailed = totalFailed,
                           lv_allErrors = lv_allErrors lv @ errors batchResults \<rparr>,
                         st2)))))"

text \<open>
  The loop itself. Nothing bounds the number of batches that the source hands out, so the
  loop runs on fuel; \<open>None\<close> means that the fuel ran out before the loop ended.
\<close>

fun batchLoop ::
  "nat \<Rightarrow> env \<Rightarrow> nat \<Rightarrow> MigrateOptions \<Rightarrow> jsstring \<Rightarrow> LoopVars \<times> state
     \<Rightarrow> (LoopVars \<times> state) option" where
  "batchLoop 0 env batchSize options channelId acc = None"
| "batchLoop (Suc fuel) env batchSize options channelId acc =
     (case batchTurn env batchSize options channelId acc of
        (True, acc') \<Rightarrow> batchLoop fuel env batchSize options channelId acc'
      | (False, acc') \<Rightarrow> Some acc')"

text \<open>
  \<open>migrateAllPosts\<close>. The connection is made before the \<open>try\<close>; everything after it is
  followed by \<open>disconnect\<close> (the \<open>finally\<close>), whose own throw replaces the result. A dry
  run returns right after the count.
\<close>

definition migrateBody ::
  "nat \<Rightarrow> env \<Rightarrow> nat \<Rightarrow> MigrateOptions \<Rightarrow> state
     \<Rightarrow> ((thrown + MigrationJob) \<times> state) option" where
  "migrateBody fuel env batchSize options st =
     (let channelName = (case mo_channelName options of None \<Rightarrow> js ''MongoDB Import'' | Some n \<Rightarrow> n);
          dryRun = (case mo_dryRun options of None \<Rightarrow> False | Some b \<Rightarrow> b)
      in case ensureDefaultChannel env channelName st of
           (Inl e, st1) \<Rightarrow> Some (Inl e, st1)
         | (Inr channelId, st1) \<Rightarrow>
             (case getPostCount env (mo_fromDate options) (mo_toDate options) st1 of
                (Inl e, st2) \<Rightarrow> Some (Inl e, st2)
              | (Inr totalCount, st2) \<Rightarrow>
                  (let migrationJob =
                         \<lparr> job_target_channel_id = channelId, job_status = Running,
                           job_total_records = totalCount, job_processed_records = 0,
                           job_failed_records = 0, job_error_message = None,
                           job_last_processed_id = None \<rparr>
                   in if dryRun then Some (Inr (migrationJob\<lparr> job_status := Completed \<rparr>), st2)
                      else
                        (case batchLoop fuel env batchSize options channelId
                                (\<lparr> lv_job = migrationJob, lv_lastId = None, lv_totalProcessed = 0,
                                   lv_totalFailed = 0, lv_allErrors = [] \<rparr>, st2) of
                           None \<Rightarrow> None
                         | Some (lv, st3) \<Rightarrow>
                             Some (Inr (if job_status (lv_job lv) \<noteq> Failed
                                        then (lv_job lv)\<lparr> job_status := Completed \<rparr>
                                        else lv_job lv), st3)))))"

definition migrateAllPosts ::
  "nat \<Rightarrow> env \<Rightarrow> nat \<Rightarrow> MigrateOptions \<Rightarrow> state
     \<Rightarrow> ((thrown + MigrationJob) \<times> state) option" where
  "migrateAllPosts fuel env batchSize options st =
     (case connect env st of
        (Inl e, st1) \<Rightarrow> Some (Inl e, st1)
      | (Inr u, st1) \<Rightarrow>
          (case migrateBody fuel env batchSize options st1 of
             None \<Rightarrow> None
           | Some (r, st2) \<Rightarrow>
               (case disconnect env st2 of
                  (Inl e, st3) \<Rightarrow> Some (Inl e, st3)
                | (Inr u, st3) \<Rightarrow> Some (r, st3))))"

definition tally :: "BatchResults \<Rightarrow> nat" where
  "tally r = successful r + failed r + skipped r"

section \<open>Embedding Generator\<close>

text \<open>
  Arithmetic on numbers. \<open>NaN\<close> spreads through every operation and fails every
  comparison. The divisors of the code below are a word count, 10000 and a positive
  magnitude, so division by zero is given no meaning of its own.
\<close>

definition nadd :: "number \<Rightarrow> number \<Rightarrow> number" where
  "nadd a b = (case (a, b) of (Num x, Num y) \<Rightarrow> Num (x + y) | _ \<Rightarrow> NaN)"

definition nmul :: "number \<Rightarrow> number \<Rightarrow> number" where
  "nmul a b = (case (a, b) of (Num x, Num y) \<Rightarrow> Num (x * y) | _ \<Rightarrow> NaN)"

definition ndiv :: "number \<Rightarrow> number \<Rightarrow> number" where
  "ndiv a b = (case (a, b) of (Num x, Num y) \<Rightarrow> if y = 0 then NaN else Num (x / y) | _ \<Rightarrow> NaN)"

definition nsqrt :: "number \<Rightarrow> number" where
  "nsqrt a = (case a of Num x \<Rightarrow> if x < 0 then NaN else Num (sqrt x) | NaN \<Rightarrow> NaN)"

definition isPositive :: "number \<Rightarrow> bool" where
  "isPositive a = (case a of Num x \<Rightarrow> 0 < x | NaN \<Rightarrow> False)"

text \<open>
  The service object after its constructor: the collection name, the vector size
  (\<open>config.vectorSize || 1536\<close>) and whether an OpenAI client was created (it is when an
  API key is configured).
\<close>

record VectorService =
  vs_collectionName :: jsstring
  vs_vectorSize :: nat
  vs_openai :: bool

definition newVectorService :: "jsstring option \<Rightarrow> nat option \<Rightarrow> jsstring \<Rightarrow> VectorService" where
  "newVectorService collectionName vectorSize openaiApiKey =
     \<lparr> vs_collectionName =
         (if orEmpty collectionName \<noteq> [] then orEmpty collectionName else js ''news_embeddings''),
       vs_vectorSize = (case vectorSize of None \<Rightarrow> 1536 | Some n \<Rightarrow> if n = 0 then 1536 else n),
       vs_openai = (openaiApiKey \<noteq> []) \<rparr>"

text \<open>
  \<open>simpleHash\<close>: the loop works on 32-bit integers (\<open>hash & hash\<close> wraps every step);
  the result is the absolute value.
\<close>

fun simpleHashLoop :: "32 word \<Rightarrow> jsstring \<Rightarrow> 32 word" where
  "simpleHashLoop hash [] = hash"
| "simpleHashLoop hash (c # cs) = simpleHashLoop ((push_bit 5 hash - hash) + ucast c) cs"

definition simpleHash :: "jsstring \<Rightarrow> nat" where
  "simpleHash str = nat \<bar>sint (simpleHashLoop 0 str)\<bar>"

text \<open>\<open>text.match(/\w+/g) || []\<close>: the maximal runs of ASCII letters, digits and underscores.\<close>

definition isWordChar :: "jschar \<Rightarrow> bool" where
  "isWordChar c \<longleftrightarrow>
     (0x0030 \<le> c \<and> c \<le> 0x0039) \<or> (0x0041 \<le> c \<and> c \<le> 0x005A) \<or> c = 0x005F
     \<or> (0x0061 \<le> c \<and> c \<le> 0x007A)"

fun splitWords :: "jsstring \<Rightarrow> jsstring \<Rightarrow> jsstring list" where
  "splitWords cur [] = (if cur = [] then [] else [rev cur])"
| "splitWords cur (c # cs) =
     (if isWordChar c then splitWords (c # cur) cs
      else (if cur = [] then [] else [rev cur]) @ splitWords [] cs)"

text \<open>
  The frequency table \<open>wordFreq\<close> is a plain object used as a dictionary, here the list of
  its own properties in insertion order. \<open>wordFreq[word] = (wordFreq[word] || 0) + 1\<close>
  reads through the prototype chain: for a word that names a function of
  \<open>Object.prototype\<close> the value read is that function, \<open>+ 1\<close> is then a string
  concatenation, and the string is stored as the word's own property; a later \<open>+ 1\<close>
  appends to the string. Such a string starts with \<open>function\<close> and denotes no number.
  For \<open>__proto__\<close> the value read is an object and the assignment of a string to it is
  ignored. Every other word starts at 1 and counts up.
\<close>

datatype freq = Count nat | NotNumeric

definition prototypeFunctions :: "jsstring list" where
  "prototypeFunctions =
     [js ''constructor'', js ''__defineGetter__'', js ''__defineSetter__'', js ''hasOwnProperty'',
      js ''__lookupGetter__'', js ''__lookupSetter__'', js ''isPrototypeOf'',
      js ''propertyIsEnumerable'', js ''toString'', js ''valueOf'', js ''toLocaleString'']"

definition countWord :: "(jsstring \<times> freq) list \<Rightarrow> jsstring \<Rightarrow> (jsstring \<times> freq) list" where
  "countWord wordFreq word =
     (case map_of wordFreq word of
        Some v \<Rightarrow>
          map (\<lambda>(k, f). if k = word
                         then (k, case f of Count n \<Rightarrow> Count (n + 1) | NotNumeric \<Rightarrow> NotNumeric)
                         else (k, f)) wordFreq
      | None \<Rightarrow>
          if word \<in> set prototypeFunctions then wordFreq @ [(word, NotNumeric)]
          else if word = js ''__proto__'' then wordFreq
          else wordFreq @ [(word, Count 1)])"

definition freqNumber :: "freq \<Rightarrow> number" where
  "freqNumber f = (case f of Count n \<Rightarrow> Num (real n) | NotNumeric \<Rightarrow> NaN)"

text \<open>
  The five features of one word: \<open>embedding[position] += (freq / words.length) *
  Math.cos(i * 0.1)\<close> at the positions \<open>(hash + i * 307) % vectorSize\<close>.
\<close>

definition addFeature :: "nat \<Rightarrow> nat \<Rightarrow> number \<Rightarrow> vector \<Rightarrow> nat \<Rightarrow> vector" where
  "addFeature vectorSize hash weight embedding i =
     (let position = (hash + i * 307) mod vectorSize
      in if position < length embedding
         then embedding[position := nadd (embedding ! position) (nmul weight (Num (cos (real i * 0.1))))]
         else embedding)"

definition addWord :: "nat \<Rightarrow> nat \<Rightarrow> vector \<Rightarrow> jsstring \<times> freq \<Rightarrow> vector" where
  "addWord vectorSize wordCount embedding entry =
     (case entry of (word, f) \<Rightarrow>
        foldl (addFeature vectorSize (simpleHash word) (ndiv (freqNumber f) (Num (real wordCount))))
          embedding [0..<5])"

text \<open>
  \<open>new Set(text.toLowerCase()).size\<close>: a string is iterated by code points, so a
  surrogate pair is one element.
\<close>

fun codePoints :: "jsstring \<Rightarrow> nat list" where
  "codePoints [] = []"
| "codePoints [c] = [unat c]"
| "codePoints (c # d # cs) =
     (if 0xD800 \<le> c \<and> c \<le> 0xDBFF \<and> 0xDC00 \<le> d \<and> d \<le> 0xDFFF
      then (0x10000 + (unat c - 0xD800) * 0x400 + (unat d - 0xDC00)) # codePoints cs
      else unat c # codePoints (d # cs))"

definition fillStatistic :: "nat \<Rightarrow> nat \<Rightarrow> vector \<Rightarrow> nat \<Rightarrow> vector" where
  "fillStatistic textLength uniqueChars embedding i =
     (if i < length embedding \<and> embedding ! i = Num 0
      then embedding[i := ndiv (Num (real textLength * real uniqueChars * sin (real i * 0.01)))
                               (Num 10000)]
      else embedding)"

text \<open>
  \<open>generateSimpleEmbedding\<close>. \<open>new Array(n)\<close> throws a \<open>RangeError\<close> when \<open>n\<close> is not an
  array length; nothing else in the function throws. The entries of the table are
  visited in insertion order (\<open>Object.entries\<close> lists keys that look like array indices
  first; the sums do not depend on the order).
\<close>

definition generateSimpleEmbedding :: "env \<Rightarrow> VectorService \<Rightarrow> jsstring \<Rightarrow> thrown + vector" where
  "generateSimpleEmbedding env svc text =
     (if 2 ^ 32 \<le> vs_vectorSize svc then Inl (Error (js ''Invalid array length''))
      else
        (let words = splitWords [] (toLowerCase env text);
             embedding0 = replicate (vs_vectorSize svc) (Num 0);
             wordFreq = foldl countWord [] words;
             embedding1 = foldl (addWord (vs_vectorSize svc) (length words)) embedding0 wordFreq;
             textLength = length text;
             uniqueChars = length (remdups (codePoints (toLowerCase env text)));
             embedding2 =
               foldl (fillStatistic textLength uniqueChars) embedding1
                 [0..<min 100 (vs_vectorSize svc)];
             magnitude =
               nsqrt (foldl (\<lambda>sum val. nadd sum (nmul val val)) (Num 0) embedding2)
         in if isPositive magnitude then Inr (map (\<lambda>val. ndiv val magnitude) embedding2)
            else Inr embedding2))"

text \<open>
  \<open>generateEmbedding\<close>: the remote model when there is a client, the local embedding
  otherwise; whatever the \<open>try\<close> block throws (a failed request, or a response without a
  first datum) is caught and answered by the local embedding.
\<close>

definition generateEmbedding ::
  "env \<Rightarrow> VectorService \<Rightarrow> jsstring \<Rightarrow> state \<Rightarrow> (thrown + vector) \<times> state" where
  "generateEmbedding env svc text st =
     (let attempt =
            (if vs_openai svc then
               (case embeddings_create env (calls st) text of
                  Inl e \<Rightarrow> (Inl e, issue (EmbeddingsCreate text) st)
                | Inr [] \<Rightarrow>
                    (Inl (Error (js ''Cannot read properties of undefined'')),
                     issue (EmbeddingsCreate text) st)
                | Inr (v # vs) \<Rightarrow> (Inr v, issue (EmbeddingsCreate text) st))
             else (generateSimpleEmbedding env svc text, st))
      in case attempt of
           (Inl e, st1) \<Rightarrow> (generateSimpleEmbedding env svc text, st1)
         | (Inr v, st1) \<Rightarrow> (Inr v, st1))"

section \<open>Vector Index Writer\<close>

definition toISOString :: "Date \<Rightarrow> thrown + int" where
  "toISOString d =
     (case d of TimeValue t \<Rightarrow> Inr t | InvalidDate \<Rightarrow> Inl (Error (js ''Invalid time value'')))"

definition contentForEmbedding :: "NewsArticleVector \<Rightarrow> jsstring" where
  "contentForEmbedding article = vec_title article @ [0x000A, 0x000A] @ vec_content article"

definition makePoint :: "NewsArticleVector \<Rightarrow> vector \<Rightarrow> int \<Rightarrow> VectorPoint" where
  "makePoint article embedding published =
     \<lparr> pt_id = vec_id article, pt_vector = embedding,
       pt_payload =
         \<lparr> pl_channel_id = vec_channel_id article,
           pl_title = vec_title article,
           pl_content = vec_content article,
           pl_content_preview = take 500 (vec_content article),
           pl_published_at = published,
           pl_categories = vec_categories article,
           pl_topics = vec_topics article,
           pl_political_score = vec_political_score article,
           pl_event_category = vec_event_category article,
           pl_source_url = vec_source_url article,
           pl_original_mongo_id = vec_original_mongo_id article \<rparr> \<rparr>"

text \<open>
  The body of the loop of \<open>storeArticlesBatch\<close>: the embedding first, then the payload.
  A throw of either is caught, and the article is left out of the batch.
\<close>

definition addPoint ::
  "env \<Rightarrow> VectorService \<Rightarrow> VectorPoint list \<times> state \<Rightarrow> NewsArticleVector
     \<Rightarrow> VectorPoint list \<times> state" where
  "addPoint env svc acc article =
     (case acc of (points, st) \<Rightarrow>
        (case generateEmbedding env svc (contentForEmbedding article) st of
           (Inl e, st1) \<Rightarrow> (points, st1)
         | (Inr embedding, st1) \<Rightarrow>
             (case toISOString (vec_published_at article) of
                Inl e \<Rightarrow> (points, st1)
              | Inr published \<Rightarrow> (points @ [makePoint article embedding published], st1))))"

definition storeArticlesBatch ::
  "env \<Rightarrow> VectorService \<Rightarrow> NewsArticleVector list \<Rightarrow> state \<Rightarrow> (thrown + unit) \<times> state" where
  "storeArticlesBatch env svc articles st =
     (if length articles = 0 then (Inr (), st)
      else
        (case foldl (addPoint env svc) ([], st) articles of
           (points, st1) \<Rightarrow>
             if length points > 0 then
               (case qdrant_upsert env (calls st1) (vs_collectionName svc) points of
                  Some e \<Rightarrow> (Inl e, issue (QdrantUpsert (vs_collectionName svc) points) st1)
                | None \<Rightarrow> (Inr (), issue (QdrantUpsert (vs_collectionName svc) points) st1))
             else (Inr (), st1)))"

text \<open>
  What \<open>storeArticlesBatch\<close> stores for an article when the embedding is the local one.
\<close>

definition theTime :: "Date \<Rightarrow> int" where
  "theTime d = (case d of TimeValue t \<Rightarrow> t | InvalidDate \<Rightarrow> 0)"

definition fallbackPoint :: "env \<Rightarrow> VectorService \<Rightarrow> NewsArticleVector \<Rightarrow> VectorPoint" where
  "fallbackPoint env svc article =
     makePoint article
       (case generateSimpleEmbedding env svc (contentForEmbedding article) of
          Inr v \<Rightarrow> v | Inl e \<Rightarrow> [])
       (theTime (vec_published_at article))"

text \<open>The L2 norm of a vector is 1.0 within \<open>1e-6\<close>.\<close>

definition sumSquares :: "vector \<Rightarrow> number" where
  "sumSquares v = foldl (\<lambda>sum val. nadd sum (nmul val val)) (Num 0) v"

definition unitNorm :: "vector \<Rightarrow> bool" where
  "unitNorm v = (case nsqrt (sumSquares v) of Num x \<Rightarrow> \<bar>x - 1\<bar> \<le> 1 / 1000000 | NaN \<Rightarrow> False)"

section \<open>Record Transformer, vector path\<close>

text \<open>
  The keyword expressions of \<open>categorizeEvent\<close> have the form \<open>/\b(k1|k2|...)\b/\<close>.
  \<open>\b\<close> holds between two positions of which exactly one holds a word character, and
  word characters are the ASCII letters, digits and the underscore (the expressions
  carry no flag). The search tries every start position; at a position the alternatives
  are tried in turn, each followed by the closing \<open>\b\<close>. \<open>prev\<close> is the code unit before
  the position, if any.
\<close>

definition wordBoundary :: "jschar option \<Rightarrow> jschar option \<Rightarrow> bool" where
  "wordBoundary a b \<longleftrightarrow>
     (case a of None \<Rightarrow> False | Some c \<Rightarrow> isWordChar c)
       \<noteq> (case b of None \<Rightarrow> False | Some c \<Rightarrow> isWordChar c)"

fun keywordThenBoundary :: "jsstring \<Rightarrow> jschar option \<Rightarrow> jsstring \<Rightarrow> bool" where
  "keywordThenBoundary [] prev s = wordBoundary prev (case s of [] \<Rightarrow> None | c # cs \<Rightarrow> Some c)"
| "keywordThenBoundary (k # ks) prev [] = False"
| "keywordThenBoundary (k # ks) prev (c # cs) = (k = c \<and> keywordThenBoundary ks (Some c) cs)"

definition matchesAt :: "jsstring list \<Rightarrow> jschar option \<Rightarrow> jsstring \<Rightarrow> bool" where
  "matchesAt keywords prev s \<longleftrightarrow>
     wordBoundary prev (case s of [] \<Rightarrow> None | c # cs \<Rightarrow> Some c)
     \<and> list_ex (\<lambda>k. keywordThenBoundary k prev s) keywords"

fun searchFrom :: "jsstring list \<Rightarrow> jschar option \<Rightarrow> jsstring \<Rightarrow> bool" where
  "searchFrom keywords prev [] = matchesAt keywords prev []"
| "searchFrom keywords prev (c # cs) =
     (matchesAt keywords prev (c # cs) \<or> searchFrom keywords (Some c) cs)"

definition regexTest :: "jsstring list \<Rightarrow> jsstring \<Rightarrow> bool" where
  "regexTest keywords text = searchFrom keywords None text"

text \<open>
  The keywords, with the code units of the Turkish letters: \<open>c\<close> with cedilla 00E7,
  \<open>u\<close> with diaeresis 00FC, \<open>g\<close> with breve 011F, dotless \<open>i\<close> 0131, \<open>s\<close> with
  cedilla 015F.
\<close>

definition politicsKeywords :: "jsstring list" where
  "politicsKeywords =
     [js ''se'' @ [0x00E7] @ js ''im'', js ''parti'', js ''milletvekili'',
      js ''ba'' @ [0x015F] @ js ''kan'', js ''h'' @ [0x00FC] @ js ''k'' @ [0x00FC] @ js ''met'',
      js ''meclis'', js ''politika'']"

definition economyKeywords :: "jsstring list" where
  "economyKeywords =
     [js ''ekonomi'', js ''dolar'', js ''euro'', js ''borsa'', js ''enflasyon'', js ''faiz'',
      js ''tcmb'', js ''merkez bankas'' @ [0x0131]]"

definition sportsKeywords :: "jsstring list" where
  "sportsKeywords =
     [js ''futbol'', js ''basketbol'', js ''spor'', js ''ma'' @ [0x00E7],
      js ''tak'' @ [0x0131] @ js ''m'', js ''galatasaray'',
      js ''fenerbah'' @ [0x00E7] @ js ''e'',
      js ''be'' @ [0x015F] @ js ''ikta'' @ [0x015F]]"

definition technologyKeywords :: "jsstring list" where
  "technologyKeywords =
     [js ''teknoloji'', js ''yapay zeka'', js ''internet'', js ''bilgisayar'', js ''telefon'',
      js ''uygulama'']"

definition healthKeywords :: "jsstring list" where
  "healthKeywords =
     [js ''sa'' @ [0x011F] @ js ''l'' @ [0x0131] @ js ''k'', js ''hastane'', js ''doktor'',
      js ''tedavi'', js ''a'' @ [0x015F, 0x0131], js ''covid'', js ''corona'']"

text \<open>
  \<open>categorizeEvent\<close>: the text is the lower-cased \<open>`${title} ${content}`\<close>, the title and
  the content joined by one blank.
\<close>

definition categorizeEvent :: "env \<Rightarrow> jsstring \<Rightarrow> jsstring \<Rightarrow> jsstring" where
  "categorizeEvent env title content =
     (let text = toLowerCase env (title @ [SP] @ content)
      in if regexTest politicsKeywords text then js ''politics''
         else if regexTest economyKeywords text then js ''economy''
         else if regexTest sportsKeywords text then js ''sports''
         else if regexTest technologyKeywords text then js ''technology''
         else if regexTest healthKeywords text then js ''health''
         else js ''general'')"

text \<open>
  The categorizer as the specification words it: a fixed ordered list of rules, each a
  category with its keyword expression; the first rule that matches the text wins, and
  the category is \<open>general\<close> when none does.
\<close>

definition eventRules :: "(jsstring \<times> jsstring list) list" where
  "eventRules =
     [(js ''politics'', politicsKeywords), (js ''economy'', economyKeywords),
      (js ''sports'', sportsKeywords), (js ''technology'', technologyKeywords),
      (js ''health'', healthKeywords)]"

definition firstMatch :: "(jsstring \<times> jsstring list) list \<Rightarrow> jsstring \<Rightarrow> jsstring" where
  "firstMatch rules text =
     (case find (\<lambda>rule. regexTest (snd rule) text) rules of
        Some rule \<Rightarrow> fst rule
      | None \<Rightarrow> js ''general'')"

text \<open>
  \<open>transformPostToVector\<close> of the vector-only \<open>ETLService\<close>. It goes with the relaxed
  validator. The identifier of the point is a fresh random UUID, drawn from the runtime.
  An exception in the body is raised by the validator, before the identifier is drawn; the
  \<open>catch\<close> branch answers \<open>success: false\<close> with an \<open>error\<close>.
\<close>

record VectorTransformation =
  vt_success :: bool
  vt_data :: "NewsArticleVector option"
  vt_error :: "jsstring option"
  vt_skipped :: bool
  vt_skip_reason :: "jsstring option"

definition skippedBecause :: "jsstring \<Rightarrow> VectorTransformation" where
  "skippedBecause reason =
     \<lparr> vt_success = False, vt_data = None, vt_error = None, vt_skipped = True,
       vt_skip_reason = Some reason \<rparr>"

definition vectorTransformationError :: "thrown \<Rightarrow> VectorTransformation" where
  "vectorTransformationError e =
     \<lparr> vt_success = False, vt_data = None,
       vt_error = Some (js ''Transformation error: '' @ messageOr (js ''Unknown error'') e),
       vt_skipped = False, vt_skip_reason = None \<rparr>"

definition transformPostToVector ::
  "env \<Rightarrow> MongoPost \<Rightarrow> state \<Rightarrow> VectorTransformation \<times> state" where
  "transformPostToVector env mongoPost st =
     (case transformPostToVector_throws env mongoPost of
        Some e \<Rightarrow> (vectorTransformationError e, st)
      | None \<Rightarrow>
      let validation = validatePostContent_relaxed mongoPost
      in if \<not> isValid validation then
           (skippedBecause (js ''Validation failed: '' @ joinWith (js '', '') (issues validation)), st)
         else
           (let rawContent = firstContent mongoPost;
                cleanContent = cleanHtmlContent rawContent
            in if cleanContent = [] \<or> length (trim cleanContent) < 5 then
                 (skippedBecause
                    (js ''Content too short after cleaning: '' @ showNat (length cleanContent)
                     @ js '' characters''), st)
               else
                 (\<lparr> vt_success = True,
                    vt_data =
                      Some \<lparr> vec_id = random_uuid env (calls st),
                             vec_channel_id = js ''mongodb-import'',
                             vec_title = post_title mongoPost,
                             vec_content = cleanContent,
                             vec_published_at =
                               (case post_published_at mongoPost of
                                  Some d \<Rightarrow> d | None \<Rightarrow> post_created_at mongoPost),
                             vec_categories =
                               (case post_categories mongoPost of None \<Rightarrow> [] | Some cs \<Rightarrow> cs),
                             vec_topics = (case post_topics mongoPost of None \<Rightarrow> [] | Some ts \<Rightarrow> ts),
                             vec_political_score = None,
                             vec_event_category =
                               Some (categorizeEvent env (post_title mongoPost) cleanContent),
                             vec_source_url =
                               (if orEmpty (post_slug mongoPost) \<noteq> []
                                then Some (js ''/'' @ orEmpty (post_slug mongoPost)) else None),
                             vec_original_mongo_id = Some (post_id mongoPost) \<rparr>,
                    vt_error = None, vt_skipped = False, vt_skip_reason = None \<rparr>,
                  issue RandomUUID st)))"

section \<open>Vector Index Writer: collection\<close>

text \<open>
  \<open>initializeCollection\<close>: when the collection is not among the existing ones it is
  created, with six payload indexes; otherwise its description is read. Any throw is
  thrown on.
\<close>

definition payloadIndexes :: "(jsstring \<times> jsstring) list" where
  "payloadIndexes =
     [(js ''channel_id'', js ''keyword''), (js ''categories'', js ''keyword''),
      (js ''published_at'', js ''datetime''), (js ''event_category'', js ''keyword''),
      (js ''topics'', js ''keyword''), (js ''political_score'', js ''float'')]"

fun createPayloadIndexes ::
  "env \<Rightarrow> jsstring \<Rightarrow> (jsstring \<times> jsstring) list \<Rightarrow> state \<Rightarrow> (thrown + unit) \<times> state" where
  "createPayloadIndexes env name [] st = (Inr (), st)"
| "createPayloadIndexes env name ((field, schema) # rest) st =
     (case qdrant_createPayloadIndex env (calls st) name field of
        Some e \<Rightarrow> (Inl e, issue (QdrantCreatePayloadIndex name field) st)
      | None \<Rightarrow> createPayloadIndexes env name rest (issue (QdrantCreatePayloadIndex name field) st))"

definition initializeCollection ::
  "env \<Rightarrow> VectorService \<Rightarrow> state \<Rightarrow> (thrown + unit) \<times> state" where
  "initializeCollection env svc st =
     (case qdrant_getCollections env (calls st) of
        Inl e \<Rightarrow> (Inl e, issue QdrantGetCollections st)
      | Inr names \<Rightarrow>
          (let st1 = issue QdrantGetCollections st; name = vs_collectionName svc
           in if name \<notin> set names then
                (case qdrant_createCollection env (calls st1) name (vs_vectorSize svc) of
                   Some e \<Rightarrow> (Inl e, issue (QdrantCreateCollection name (vs_vectorSize svc)) st1)
                 | None \<Rightarrow>
                     createPayloadIndexes env name payloadIndexes
                       (issue (QdrantCreateCollection name (vs_vectorSize svc)) st1))
              else
                (case qdrant_getCollection env (calls st1) name of
                   Inl e \<Rightarrow> (Inl e, issue (QdrantGetCollection name) st1)
                 | Inr info \<Rightarrow> (Inr (), issue (QdrantGetCollection name) st1))))"

record CollectionStats =
  total_points :: nat
  indexed_points :: nat
  stats_status :: jsstring

definition getCollectionStats ::
  "env \<Rightarrow> VectorService \<Rightarrow> state \<Rightarrow> (thrown + CollectionStats) \<times> state" where
  "getCollectionStats env svc st =
     (case qdrant_getCollection env (calls st) (vs_collectionName svc) of
        Inl e \<Rightarrow> (Inl e, issue (QdrantGetCollection (vs_collectionName svc)) st)
      | Inr info \<Rightarrow>
          (Inr \<lparr> total_points = (case info_points_count info of None \<Rightarrow> 0 | Some n \<Rightarrow> n),
                 indexed_points = (case info_indexed_points_count info of None \<Rightarrow> 0 | Some n \<Rightarrow> n),
                 stats_status = info_status info \<rparr>,
           issue (QdrantGetCollection (vs_collectionName svc)) st))"

section \<open>ETL Orchestrator, vector path\<close>

text \<open>
  \<open>MigrationResult\<close> of \<open>types/mongodb.ts\<close> (without \<open>duration\<close>, which is read off the
  clock) and the options of \<open>migrateToVectorOnly\<close>.
\<close>

record MigrationResult =
  mr_success :: bool
  mr_processed :: nat
  mr_inserted :: nat
  mr_skipped :: nat
  mr_errors :: nat
  mr_error_details :: "(jsstring \<times> jsstring) list"

record VectorOptions =
  vo_limit :: "nat option"
  vo_offset :: "nat option"
  vo_dateRange :: "(Date \<times> Date) option"
  vo_dryRun :: "bool option"

definition emptyResult :: MigrationResult where
  "emptyResult =
     \<lparr> mr_success = True, mr_processed = 0, mr_inserted = 0, mr_skipped = 0, mr_errors = 0,
       mr_error_details = [] \<rparr>"

definition isDryRun :: "VectorOptions \<Rightarrow> bool" where
  "isDryRun options = (case vo_dryRun options of None \<Rightarrow> False | Some b \<Rightarrow> b)"

text \<open>
  The body of the loop over the posts of a batch: every post is counted as processed; a
  skipped post is counted as skipped; a transformation without success or without data is
  counted as an error; every other post joins the articles of the batch.
\<close>

definition transformInto ::
  "env \<Rightarrow> MigrationResult \<times> NewsArticleVector list \<times> state \<Rightarrow> MongoPost
     \<Rightarrow> MigrationResult \<times> NewsArticleVector list \<times> state" where
  "transformInto env acc post =
     (case acc of (result, vectorArticles, st) \<Rightarrow>
        (let result1 = result\<lparr> mr_processed := mr_processed result + 1 \<rparr>
         in case transformPostToVector env post st of
              (transformation, st1) \<Rightarrow>
                if vt_skipped transformation then
                  (result1\<lparr> mr_skipped := mr_skipped result1 + 1 \<rparr>, vectorArticles, st1)
                else
                  (case (if vt_success transformation then vt_data transformation else None) of
                     None \<Rightarrow>
                       (result1\<lparr> mr_errors := mr_errors result1 + 1,
                           mr_error_details := mr_error_details result1 @
                             [(post_id post,
                               if orEmpty (vt_error transformation) \<noteq> []
                               then orEmpty (vt_error transformation)
                               else js ''Unknown transformation error'')] \<rparr>,
                        vectorArticles, st1)
                   | Some article \<Rightarrow> (result1, vectorArticles @ [article], st1))))"

text \<open>
  One turn of the \<open>while\<close> loop of \<open>migrateToVectorOnly\<close>, entered with
  \<open>processed < effectiveLimit\<close>. A throw of \<open>fetchPosts\<close> leaves the loop and the
  function; an empty batch ends the loop; a throw of \<open>storeArticlesBatch\<close> is caught and
  counts the articles of the batch as errors. In a dry run nothing is stored and the
  articles of the batch are counted as inserted.
\<close>

definition vectorTurn ::
  "env \<Rightarrow> VectorService \<Rightarrow> nat \<Rightarrow> VectorOptions \<Rightarrow> nat \<Rightarrow> MigrationResult \<times> nat \<Rightarrow> state
     \<Rightarrow> (thrown + bool \<times> MigrationResult \<times> nat) \<times> state" where
  "vectorTurn env svc batchSize options effectiveLimit vars st =
     (case vars of (result, currentOffset) \<Rightarrow>
        (let remainingLimit = min batchSize (effectiveLimit - mr_processed result)
         in case fetchPosts env
                   \<lparr> fo_limit = Some remainingLimit, fo_skip = Some currentOffset,
                     fo_fromDate = map_option fst (vo_dateRange options),
                     fo_toDate = map_option snd (vo_dateRange options),
                     fo_status = None, fo_lastId = None \<rparr> st of
              (Inl e, st1) \<Rightarrow> (Inl e, st1)
            | (Inr posts, st1) \<Rightarrow>
                if length posts = 0 then (Inr (False, result, currentOffset), st1)
                else
                  (case foldl (transformInto env) (result, [], st1) posts of
                     (result1, vectorArticles, st2) \<Rightarrow>
                       if \<not> isDryRun options \<and> length vectorArticles > 0 then
                         (case storeArticlesBatch env svc vectorArticles st2 of
                            (Inr u, st3) \<Rightarrow>
                              (Inr (True,
                                    result1\<lparr> mr_inserted := mr_inserted result1 + length vectorArticles \<rparr>,
                                    currentOffset + remainingLimit), st3)
                          | (Inl e, st3) \<Rightarrow>
                              (Inr (True,
                                    result1\<lparr> mr_errors := mr_errors result1 + length vectorArticles,
                                      mr_error_details := mr_error_details result1 @
                                        [(js ''batch'', messageOr (js ''Unknown vector storage error'') e)] \<rparr>,
                                    currentOffset + remainingLimit), st3))
                       else if isDryRun options then
                         (Inr (True,
                               result1\<lparr> mr_inserted := mr_inserted result1 + length vectorArticles \<rparr>,
                               currentOffset + remainingLimit), st2)
                       else (Inr (True, result1, currentOffset + remainingLimit), st2))))"

text \<open>
  The loop. Every turn that continues has processed at least one post, and the loop is
  left once \<open>effectiveLimit\<close> posts have been processed, so it ends.
\<close>

function vectorLoop ::
  "env \<Rightarrow> VectorService \<Rightarrow> nat \<Rightarrow> VectorOptions \<Rightarrow> nat \<Rightarrow> nat \<Rightarrow> MigrationResult \<times> nat \<Rightarrow> state
     \<Rightarrow> (thrown + MigrationResult) \<times> state" where
  "vectorLoop env svc batchSize options totalPosts effectiveLimit vars st =
     (if snd vars < totalPosts \<and> mr_processed (fst vars) < effectiveLimit then
        (case vectorTurn env svc batchSize options effectiveLimit vars st of
           (Inl e, st1) \<Rightarrow> (Inl e, st1)
         | (Inr (again, vars1), st1) \<Rightarrow>
             if again then vectorLoop env svc batchSize options totalPosts effectiveLimit vars1 st1
             else (Inr (fst vars1), st1))
      else (Inr (fst vars), st))"
  by pat_completeness auto
termination
proof (relation "measure (\<lambda>(env, svc, batchSize, options, totalPosts, effectiveLimit, vars, st).
                            effectiveLimit - mr_processed (fst vars))")
  show "wf (measure (\<lambda>(env, svc, batchSize, options, totalPosts, effectiveLimit, vars, st).
                            effectiveLimit - mr_processed (fst vars)))" by simp
next
  fix env svc batchSize options totalPosts effectiveLimit and vars :: "MigrationResult \<times> nat"
    and st x1 st1 x2 again vars1
  assume g: "snd vars < totalPosts \<and> mr_processed (fst vars) < effectiveLimit"
    and t: "(x1, st1) = vectorTurn env svc batchSize options effectiveLimit vars st"
    and x: "x1 = Inr x2" "(again, vars1) = x2" "again"
  have one: "mr_processed r' = mr_processed r + 1"
    if "transformInto env (r, a, s) p = (r', a', s')" for r a s p r' a' s'
    using that
    by (auto simp: transformInto_def Let_def split: prod.splits if_splits option.splits)
  have all: "mr_processed r' = mr_processed r + length ps"
    if "foldl (transformInto env) (r, a, s) ps = (r', a', s')" for ps r a s r' a' s'
    using that
  proof (induction ps arbitrary: r a s)
    case Nil
    then show ?case by simp
  next
    case (Cons p ps)
    obtain r1 a1 s1 where 1: "transformInto env (r, a, s) p = (r1, a1, s1)"
      by (cases "transformInto env (r, a, s) p") auto
    with Cons.prems have "foldl (transformInto env) (r1, a1, s1) ps = (r', a', s')" by simp
    from Cons.IH [OF this] one [OF 1] show ?case by simp
  qed
  obtain result offset where v: "vars = (result, offset)" by (cases vars)
  obtain result' offset' where v1: "vars1 = (result', offset')" by (cases vars1)
  have "vectorTurn env svc batchSize options effectiveLimit (result, offset) st
             = (Inr (True, result', offset'), st1)"
    using t x v v1 by simp
  then obtain posts s1 r1 arts s2 where
    p: "posts \<noteq> []" and f: "foldl (transformInto env) (result, [], s1) posts = (r1, arts, s2)"
    and r: "mr_processed result' = mr_processed r1"
    by (auto simp: vectorTurn_def Let_def split: prod.splits sum.splits if_splits)
  from all [OF f] p r have "mr_processed result < mr_processed result'" by (cases posts) auto
  with g show "((env, svc, batchSize, options, totalPosts, effectiveLimit, vars1, st1),
         (env, svc, batchSize, options, totalPosts, effectiveLimit, vars, st))
        \<in> measure (\<lambda>(env, svc, batchSize, options, totalPosts, effectiveLimit, vars, st).
                            effectiveLimit - mr_processed (fst vars))"
    by (simp add: v v1 diff_less_mono2)
qed

text \<open>
  \<open>migrateToVectorOnly\<close>. The whole body is inside a \<open>try\<close> whose \<open>catch\<close> throws the
  error on. At most 500 records are processed (\<open>testLimit\<close>). The statistics read at the
  end are only logged, and a failure to read them is swallowed.
\<close>

definition effectiveLimitOf :: "VectorOptions \<Rightarrow> nat" where
  "effectiveLimitOf options =
     (case vo_limit options of
        None \<Rightarrow> 500
      | Some n \<Rightarrow> if n = 0 then 500 else min n 500)"

definition migrateToVectorOnly ::
  "env \<Rightarrow> VectorService \<Rightarrow> nat \<Rightarrow> VectorOptions \<Rightarrow> state
     \<Rightarrow> (thrown + MigrationResult) \<times> state" where
  "migrateToVectorOnly env svc batchSize options st =
     (case healthCheck env st of
        (isConnected, st1) \<Rightarrow>
          (case (if isConnected then (Inr (), st1) else connect env st1) of
             (Inl e, st2) \<Rightarrow> (Inl e, st2)
           | (Inr u, st2) \<Rightarrow>
               (case initializeCollection env svc st2 of
                  (Inl e, st3) \<Rightarrow> (Inl e, st3)
                | (Inr u, st3) \<Rightarrow>
                    (case getPostCount_connecting env
                            (map_option fst (vo_dateRange options))
                            (map_option snd (vo_dateRange options)) st3 of
                       (Inl e, st4) \<Rightarrow> (Inl e, st4)
                     | (Inr totalPosts, st4) \<Rightarrow>
                         (case vectorLoop env svc batchSize options totalPosts
                                 (effectiveLimitOf options)
                                 (emptyResult, case vo_offset options of None \<Rightarrow> 0 | Some n \<Rightarrow> n)
                                 st4 of
                            (Inl e, st5) \<Rightarrow> (Inl e, st5)
                          | (Inr result, st5) \<Rightarrow>
                              (Inr result, snd (getCollectionStats env svc st5)))))))"

declare vectorLoop.simps [simp del]

section \<open>Requests made on behalf of records\<close>

text \<open>
  The requests that carry a record to a target: the insert of an article, the embedding
  request for an article and the upsert of points. \<open>isFetch\<close> marks the reads of records
  from the source. \<open>quiet\<close> is a history without the former.
\<close>

fun recordTraffic :: "call \<Rightarrow> bool" where
  "recordTraffic (ArticlesCreate a) = True"
| "recordTraffic (EmbeddingsCreate t) = True"
| "recordTraffic (QdrantUpsert n ps) = True"
| "recordTraffic c = False"

fun isFetch :: "call \<Rightarrow> bool" where
  "isFetch (MongoFind q skip limit) = True"
| "isFetch c = False"

definition quiet :: "call list \<Rightarrow> call list" where
  "quiet h = filter (\<lambda>c. \<not> recordTraffic c) h"

text \<open>
  An environment is blind when its answers to the requests of the vector path, other than
  those that carry records, do not depend on the record traffic of the past; it is
  accepting when the vector index refuses no upsert.
\<close>

definition blind :: "env \<Rightarrow> bool" where
  "blind env \<longleftrightarrow>
     (\<forall>h. mongo_connect env h = mongo_connect env (quiet h))
     \<and> (\<forall>h. mongo_ping env h = mongo_ping env (quiet h))
     \<and> (\<forall>h. mongo_countDocuments env h = mongo_countDocuments env (quiet h))
     \<and> (\<forall>h. mongo_find env h = mongo_find env (quiet h))
     \<and> (\<forall>h. random_uuid env h = random_uuid env (quiet h))
     \<and> (\<forall>h. qdrant_getCollections env h = qdrant_getCollections env (quiet h))
     \<and> (\<forall>h. qdrant_createCollection env h = qdrant_createCollection env (quiet h))
     \<and> (\<forall>h. qdrant_createPayloadIndex env h = qdrant_createPayloadIndex env (quiet h))
     \<and> (\<forall>h. qdrant_getCollection env h = qdrant_getCollection env (quiet h))"

definition accepting :: "env \<Rightarrow> bool" where
  "accepting env \<longleftrightarrow> (\<forall>h n ps. qdrant_upsert env h n ps = None)"

definition similar :: "state \<Rightarrow> state \<Rightarrow> bool" where
  "similar s t \<longleftrightarrow>
     quiet (calls s) = quiet (calls t) \<and> mongo_client s = mongo_client t
     \<and> mongo_db s = mongo_db t \<and> defaultChannelId s = defaultChannelId t"

definition traffic :: "state \<Rightarrow> call list" where
  "traffic st = filter recordTraffic (calls st)"

definition fetches :: "state \<Rightarrow> call list" where
  "fetches st = filter isFetch (calls st)"

definition dryOptions :: "VectorOptions \<Rightarrow> VectorOptions" where
  "dryOptions options = options\<lparr> vo_dryRun := Some True \<rparr>"

definition realOptions :: "VectorOptions \<Rightarrow> VectorOptions" where
  "realOptions options = options\<lparr> vo_dryRun := Some False \<rparr>"

text \<open>
  The counters of a result are balanced up to \<open>n\<close> articles that wait for the write of
  their batch.
\<close>

definition pending :: "MigrationResult \<Rightarrow> nat \<Rightarrow> bool" where
  "pending r n \<longleftrightarrow> mr_inserted r + mr_skipped r + mr_errors r + n = mr_processed r"

text \<open>The records that the vector transformer does not skip.\<close>

definition vectorEligible :: "MongoPost \<Rightarrow> bool" where
  "vectorEligible post \<longleftrightarrow>
     isValid (validatePostContent_relaxed post)
     \<and> cleanHtmlContent (firstContent post) \<noteq> []
     \<and> 5 \<le> length (trim (cleanHtmlContent (firstContent post)))"

section \<open>Concrete records and environments for the runs\<close>

definition shortPost :: MongoPost where
  "shortPost =
     withContent (js ''<p>The council met on Monday and approved the new <b>budget</b> for schools.</p>'')
       (emptyPost\<lparr> post_id := js ''p1'', post_title := js ''Budget vote'' \<rparr>)"

definition longPost :: MongoPost where
  "longPost =
     withContent
       (js ''<p>The council met on Monday and approved the new budget for schools.</p>''
        @ js ''<p>The council met on Tuesday and approved the new budget for roads.</p>''
        @ js ''<p>The council met on Friday and approved the new budget for parks.</p>''
        @ js ''<p>The council will meet again next month.</p>'')
       (emptyPost\<lparr> post_id := js ''p2'', post_title := js ''Budget week'' \<rparr>)"

definition rejectedPost :: MongoPost where
  "rejectedPost = shortPost\<lparr> post_id := js ''p3'', post_title := js ''Duplicate'' \<rparr>"

text \<open>
  An environment in which every request succeeds, except that there is no embedding
  service, and the source is empty. Its \<open>toLowerCase\<close> maps \<open>A\<close>..\<open>Z\<close> to \<open>a\<close>..\<open>z\<close>
  and keeps every other code unit, as the built-in does on strings that hold no other
  capital letter.
\<close>

definition asciiLower :: "jsstring \<Rightarrow> jsstring" where
  "asciiLower s = map (\<lambda>c. if 0x0041 \<le> c \<and> c \<le> 0x005A then c + 0x0020 else c) s"

definition calmEnv :: env where
  "calmEnv =
     \<lparr> mongo_connect = (\<lambda>h. None),
       mongo_close = (\<lambda>h. None),
       mongo_ping = (\<lambda>h. None),
       mongo_countDocuments = (\<lambda>h q. Inr 0),
       mongo_find = (\<lambda>h q skip limit. Inr []),
       channels_getAll = (\<lambda>h. Inr []),
       channels_create = (\<lambda>h name. Inr \<lparr> channel_id = js ''c1'', channel_name = name \<rparr>),
       articles_create = (\<lambda>h a. None),
       random_uuid = (\<lambda>h. js ''u1''),
       embeddings_create = (\<lambda>h input. Inl Thrown),
       qdrant_getCollections = (\<lambda>h. Inr []),
       qdrant_createCollection = (\<lambda>h name size. None),
       qdrant_createPayloadIndex = (\<lambda>h name field. None),
       qdrant_getCollection =
         (\<lambda>h name. Inr \<lparr> info_points_count = None, info_indexed_points_count = None,
                          info_status = js ''green'' \<rparr>),
       qdrant_upsert = (\<lambda>h name points. None),
       toLowerCase = asciiLower,
       transformPost_throws = (\<lambda>post. None),
       transformPostToVector_throws = (\<lambda>post. None) \<rparr>"

text \<open>
  A source of three published records, handed out in one batch, and a relational store
  that refuses the article titled \<open>Duplicate\<close>.
\<close>

definition sourceEnv :: env where
  "sourceEnv =
     calmEnv\<lparr>
       articles_create :=
         (\<lambda>h a. if art_title a = js ''Duplicate'' then Some (Error (js ''duplicate key'')) else None),
       mongo_find :=
         (\<lambda>h q skip limit.
            if q_id_gt q = None then Inr [shortPost, emptyPost, rejectedPost] else Inr []),
       mongo_countDocuments := (\<lambda>h q. Inr 3) \<rparr>"



definition connectedState :: state where
  "connectedState = initialState\<lparr> mongo_client := True, mongo_db := True \<rparr>"

definition theOptions :: MigrateOptions where
  "theOptions = \<lparr> mo_fromDate = None, mo_toDate = None, mo_channelName = None, mo_dryRun = None \<rparr>"

definition startVars :: LoopVars where
  "startVars =
     \<lparr> lv_job = \<lparr> job_target_channel_id = js ''c1'', job_status = Running, job_total_records = 3,
                  job_processed_records = 0, job_failed_records = 0, job_error_message = None,
                  job_last_processed_id = None \<rparr>,
       lv_lastId = None, lv_totalProcessed = 0, lv_totalFailed = 0, lv_allErrors = [] \<rparr>"

text \<open>
  Two services: the default one, without an API key, and one with a key and vectors of
  size 8. Two articles for the vector index.
\<close>

definition defaultService :: VectorService where
  "defaultService = newVectorService None None []"

definition keyedService :: VectorService where
  "keyedService = newVectorService None (Some 8) (js ''sk-test'')"

definition article1 :: NewsArticleVector where
  "article1 =
     \<lparr> vec_id = js ''u1'', vec_channel_id = js ''mongodb-import'', vec_title = js ''Budget vote'',
       vec_content = js ''The council met on Monday.'', vec_published_at = TimeValue 1700000000000,
       vec_categories = [], vec_topics = [], vec_political_score = None,
       vec_event_category = Some (js ''general''), vec_source_url = None,
       vec_original_mongo_id = Some (js ''p1'') \<rparr>"

definition article2 :: NewsArticleVector where
  "article2 = article1\<lparr> vec_id := js ''u2'', vec_title := js ''Budget week'',
     vec_original_mongo_id := Some (js ''p2'') \<rparr>"

definition dryOptionsOfJob :: MigrateOptions where
  "dryOptionsOfJob = theOptions\<lparr> mo_dryRun := Some True \<rparr>"

definition vectorOptions :: VectorOptions where
  "vectorOptions = \<lparr> vo_limit = None, vo_offset = None, vo_dateRange = None, vo_dryRun = None \<rparr>"

section \<open>Properties of cleaning\<close>

lemma set_replaceAll:
  assumes "\<And>t u. m t = Some u \<Longrightarrow> set u \<subseteq> set t"
  shows "set (replaceAll m r s) \<subseteq> set s \<union> set r"
  using assms
proof (induction m r s rule: replaceAll.induct)
  case (1 m r)
  show ?case by simp
next
  case (2 m r c cs)
  show ?case
  proof (cases "m (c # cs)")
    case None
    with 2 show ?thesis by auto
  next
    case (Some rest)
    then have "set rest \<subseteq> set (c # cs)" by (rule "2.prems")
    with Some 2 show ?thesis by (cases "length rest \<le> length cs") auto
  qed
qed

lemma matchTag_set: "matchTag t = Some u \<Longrightarrow> set u \<subseteq> set t"
proof -
  assume a: "matchTag t = Some u"
  have "set (tl (dropWhile (\<lambda>c. c \<noteq> GT) xs)) \<subseteq> set xs" for xs
    by (metis list.set_sel(2) set_dropWhileD subsetI tl_Nil)
  with a show ?thesis
    by (auto simp: matchTag_def afterFirstGT_def split: list.splits if_splits)
qed

lemma matchSpaces_set: "matchSpaces t = Some u \<Longrightarrow> set u \<subseteq> set t"
  by (auto simp: matchSpaces_def split: list.splits if_splits dest: set_dropWhileD)

lemma afterFirstGT_Some: "afterFirstGT s = Some r \<Longrightarrow> GT \<in> set s"
  by (auto simp: afterFirstGT_def split: if_splits)

lemma afterFirstGT_length: "afterFirstGT s = Some r \<Longrightarrow> length r < length s"
proof -
  assume a: "afterFirstGT s = Some r"
  then have g: "GT \<in> set s" by (rule afterFirstGT_Some)
  then have "dropWhile (\<lambda>c. c \<noteq> GT) s \<noteq> []" by (simp add: dropWhile_eq_Nil_conv)
  then have "length (tl (dropWhile (\<lambda>c. c \<noteq> GT) s)) < length (dropWhile (\<lambda>c. c \<noteq> GT) s)"
    by (cases "dropWhile (\<lambda>c. c \<noteq> GT) s") auto
  also have "\<dots> \<le> length s" by (rule length_dropWhile_le)
  finally have "length (tl (dropWhile (\<lambda>c. c \<noteq> GT) s)) < length s" .
  moreover have "r = tl (dropWhile (\<lambda>c. c \<noteq> GT) s)"
    using a g by (simp add: afterFirstGT_def)
  ultimately show ?thesis by simp
qed

lemma stripPrefixCI_set: "stripPrefixCI p s = Some r \<Longrightarrow> set r \<subseteq> set s"
  by (induction p s rule: stripPrefixCI.induct) (auto split: if_splits)

lemma matchTag_Some: "matchTag (c # cs) = Some r \<Longrightarrow> c = LT \<and> GT \<in> set cs"
  by (auto simp: matchTag_def dest: afterFirstGT_Some split: if_splits)

lemma matchBlock_Some: "matchBlock name (c # cs) = Some r \<Longrightarrow> c = LT \<and> GT \<in> set cs"
  by (auto simp: matchBlock_def eqIgnoreCase_def LT_def split: option.splits if_splits
      dest!: afterFirstGT_Some stripPrefixCI_set)

lemma replaceAll_id: "(\<And>c cs r. m (c # cs) = Some r \<Longrightarrow> c = LT \<and> GT \<in> set cs) \<Longrightarrow> no_tag s \<Longrightarrow> replaceAll m r s = s"
  by (induction s) (auto split: option.splits)

lemma no_tag_replace_tags: "no_tag (replaceAll matchTag [SP] s)"
proof (induction matchTag "[SP]" s rule: replaceAll.induct)
  case 1
  show ?case by simp
next
  case (2 c cs)
  show ?case
  proof (cases "matchTag (c # cs)")
    case None
    then have "c = LT \<Longrightarrow> GT \<notin> set cs"
      by (auto simp: matchTag_def afterFirstGT_def split: if_splits)
    moreover have "set (replaceAll matchTag [SP] cs) \<subseteq> set cs \<union> {SP}"
      using set_replaceAll [where m = matchTag and r = "[SP]" and s = cs, OF matchTag_set] by simp
    ultimately have "c = LT \<Longrightarrow> GT \<notin> set (replaceAll matchTag [SP] cs)"
      by (auto simp: SP_def GT_def)
    with None 2 show ?thesis by simp
  next
    case (Some rest)
    then have "length rest \<le> length cs"
      using afterFirstGT_length [of cs rest] by (auto simp: matchTag_def split: if_splits)
    with Some 2 show ?thesis by (simp add: SP_def LT_def)
  qed
qed

lemma no_tag_dropWhile: "no_tag s \<Longrightarrow> no_tag (dropWhile P s)"
  by (induction s) auto

lemma no_tag_append: "no_tag (xs @ ys) \<Longrightarrow> no_tag xs"
  by (induction xs) auto

lemma no_tag_spaces: "no_tag s \<Longrightarrow> no_tag (replaceAll matchSpaces [SP] s)"
proof (induction matchSpaces "[SP]" s rule: replaceAll.induct)
  case 1
  show ?case by simp
next
  case (2 c cs)
  show ?case
  proof (cases "isSpace c")
    case True
    then have m: "matchSpaces (c # cs) = Some (dropWhile isSpace cs)" by (simp add: matchSpaces_def)
    have "no_tag (dropWhile isSpace cs)" using "2.prems" by (simp add: no_tag_dropWhile)
    with m 2 show ?thesis by (simp add: length_dropWhile_le SP_def LT_def)
  next
    case False
    then have m: "matchSpaces (c # cs) = None" by (simp add: matchSpaces_def)
    have "set (replaceAll matchSpaces [SP] cs) \<subseteq> set cs \<union> {SP}"
      using set_replaceAll [where m = matchSpaces and r = "[SP]" and s = cs, OF matchSpaces_set] by simp
    then have "GT \<notin> set cs \<Longrightarrow> GT \<notin> set (replaceAll matchSpaces [SP] cs)"
      by (auto simp: SP_def GT_def)
    with m 2 show ?thesis by auto
  qed
qed

lemma trim_prefix: "\<exists>zs. dropWhile P s = rev (dropWhile P (rev (dropWhile P s))) @ zs"
proof -
  have "rev (dropWhile P s) = takeWhile P (rev (dropWhile P s)) @ dropWhile P (rev (dropWhile P s))"
    by simp
  then have "rev (rev (dropWhile P s)) = rev (takeWhile P (rev (dropWhile P s)) @ dropWhile P (rev (dropWhile P s)))"
    by simp
  then show ?thesis by (metis rev_append rev_rev_ident)
qed

lemma no_tag_trim: "no_tag s \<Longrightarrow> no_tag (trim s)"
proof -
  assume "no_tag s"
  then have d: "no_tag (dropWhile isSpace s)" by (rule no_tag_dropWhile)
  obtain zs where "dropWhile isSpace s = trim s @ zs"
    using trim_prefix [of isSpace s] by (auto simp: trim_def)
  with d show ?thesis by (metis no_tag_append)
qed

lemma isSpace_SP: "isSpace SP" by (simp add: isSpace_def SP_def)

lemma spaced_collapse: "spaced (replaceAll matchSpaces [SP] s)"
proof (induction matchSpaces "[SP]" s rule: replaceAll.induct)
  case 1
  show ?case by simp
next
  case (2 c cs)
  show ?case
  proof (cases "isSpace c")
    case True
    then have m: "matchSpaces (c # cs) = Some (dropWhile isSpace cs)" by (simp add: matchSpaces_def)
    have h: "case replaceAll matchSpaces [SP] (dropWhile isSpace cs) of [] \<Rightarrow> True | d # ds \<Rightarrow> \<not> isSpace d"
    proof (cases "dropWhile isSpace cs")
      case Nil show ?thesis unfolding Nil by simp
    next
      case (Cons d ds)
      then have "\<not> isSpace d" by (metis hd_dropWhile list.sel(1) list.distinct(1))
      then have "replaceAll matchSpaces [SP] (d # ds) = d # replaceAll matchSpaces [SP] ds"
        by (simp add: matchSpaces_def)
      with \<open>\<not> isSpace d\<close> show ?thesis unfolding Cons by simp
    qed
    with m 2 show ?thesis by (simp add: length_dropWhile_le)
  next
    case False
    then have m: "matchSpaces (c # cs) = None" by (simp add: matchSpaces_def)
    with False 2 show ?thesis by simp
  qed
qed

lemma collapse_id: "spaced s \<Longrightarrow> replaceAll matchSpaces [SP] s = s"
proof (induction s)
  case Nil
  show ?case by simp
next
  case (Cons c cs)
  show ?case
  proof (cases "isSpace c")
    case True
    with Cons.prems have c: "c = SP" and d: "dropWhile isSpace cs = cs"
      by (auto split: list.splits)
    from True have m: "matchSpaces (c # cs) = Some (dropWhile isSpace cs)" by (simp add: matchSpaces_def)
    show ?thesis using m c d Cons by simp
  next
    case False
    then have m: "matchSpaces (c # cs) = None" by (simp add: matchSpaces_def)
    with Cons show ?thesis by simp
  qed
qed

lemma trim_idem: "trim (trim s) = trim s"
proof -
  let ?d = "dropWhile isSpace s"
  let ?t = "rev (dropWhile isSpace (rev ?d))"
  have t: "trim s = ?t" by (simp add: trim_def)
  have a: "dropWhile isSpace ?t = ?t"
  proof (cases "?t")
    case Nil show ?thesis unfolding Nil by simp
  next
    case (Cons x xs)
    obtain zs where z: "?d = ?t @ zs" using trim_prefix [of isSpace s] by auto
    with Cons have "?d \<noteq> []" by auto
    then have "\<not> isSpace (hd ?d)" by (rule hd_dropWhile)
    moreover have "hd ?d = x" using z Cons by (metis hd_append2 list.sel(1) list.distinct(1))
    ultimately show ?thesis using Cons by simp
  qed
  have b: "dropWhile isSpace (rev ?t) = rev ?t" by (simp add: dropWhile_idem)
  have "trim ?t = rev (dropWhile isSpace (rev (dropWhile isSpace ?t)))" by (simp only: trim_def)
  also have "\<dots> = rev (dropWhile isSpace (rev ?t))" by (simp only: a)
  also have "\<dots> = rev (rev ?t)" by (simp only: b)
  also have "\<dots> = ?t" by (simp only: rev_rev_ident)
  finally show ?thesis by (simp only: t)
qed

lemma spaced_dropWhile: "spaced s \<Longrightarrow> spaced (dropWhile P s)"
  by (induction s) auto

lemma spaced_append: "spaced (xs @ ys) \<Longrightarrow> spaced xs"
proof (induction xs)
  case Nil show ?case by simp
next
  case (Cons x xs)
  then show ?case by (cases xs) auto
qed

lemma spaced_trim: "spaced s \<Longrightarrow> spaced (trim s)"
proof -
  assume "spaced s"
  then have d: "spaced (dropWhile isSpace s)" by (rule spaced_dropWhile)
  obtain zs where "dropWhile isSpace s = trim s @ zs"
    using trim_prefix [of isSpace s] by (auto simp: trim_def)
  with d show ?thesis by (metis spaced_append)
qed

lemma no_tag_clean: "no_tag (cleanHtmlContent x)"
  by (simp add: cleanHtmlContent_def no_tag_trim no_tag_spaces no_tag_replace_tags)

lemma spaced_clean: "spaced (cleanHtmlContent x)"
  by (simp add: cleanHtmlContent_def spaced_trim spaced_collapse)

lemma trim_clean: "trim (cleanHtmlContent x) = cleanHtmlContent x"
  by (simp add: cleanHtmlContent_def trim_idem) (simp add: trim_def)

text \<open>
  Claim C8 (cleaning is idempotent): for every input string, cleaning the cleaned text again
  changes nothing. After the first pass no \<open><\<close> has a \<open>>\<close> to its right, so none of the
  three tag expressions can match in the second pass, and white space is already normal.
\<close>

theorem cleanHtmlContent_idempotent: "cleanHtmlContent (cleanHtmlContent x) = cleanHtmlContent x"
proof -
  let ?y = "cleanHtmlContent x"
  have n: "no_tag ?y" by (rule no_tag_clean)
  have 1: "replaceAll (matchBlock (js ''script'')) [] ?y = ?y"
    using n by (rule replaceAll_id [rotated]) (rule matchBlock_Some)
  have 2: "replaceAll (matchBlock (js ''style'')) [] ?y = ?y"
    using n by (rule replaceAll_id [rotated]) (rule matchBlock_Some)
  have 3: "replaceAll matchTag [SP] ?y = ?y"
    using n by (rule replaceAll_id [rotated]) (rule matchTag_Some)
  have 4: "replaceAll matchSpaces [SP] ?y = ?y"
    using spaced_clean by (rule collapse_id)
  show ?thesis
    using 1 2 3 4 trim_clean [of x] by (simp add: cleanHtmlContent_def [of ?y])
qed

lemmas clean_eval =
  cleanHtmlContent_def js_def matchBlock_def matchTag_def matchSpaces_def afterFirstGT_def
  LT_def GT_def SP_def trim_def isSpace_def isLineTerminator_def eqIgnoreCase_def

theorem cleanHtmlContent_idempotent_witness:
  "cleanHtmlContent (js ''<p>Hi  <b>x</b></p><script>1</script>'') = js ''Hi x''
   \<and> cleanHtmlContent (js ''Hi x'') = js ''Hi x''"
proof -
  have a: "cleanHtmlContent (js ''<p>Hi  <b>x</b></p><script>1</script>'') = js ''Hi x''"
    by (simp add: clean_eval)
  show ?thesis
    using cleanHtmlContent_idempotent [of "js ''<p>Hi  <b>x</b></p><script>1</script>''"] a by simp
qed

section \<open>Properties of validation\<close>

lemma trim_Nil: "trim [] = []"
  by (simp add: trim_def)

lemma resolveBody_single: "resolveBody [x] = (if orEmpty x = [] then None else Some (orEmpty x))"
  by (simp add: resolveBody_def)

lemma resolveBody_candidates:
  "resolveBody (candidateFields post) =
     (if firstContent post = [] then None else Some (firstContent post))"
  by (simp add: resolveBody_def candidateFields_def firstContent_def)

lemma isValid_strict:
  "isValid (validatePostContent post) \<longleftrightarrow>
     spec_rules Strict (post_title post) (resolveBody [contentText post]) (post_status post)"
  by (auto simp: validatePostContent_def Let_def spec_rules_def resolveBody_single minBody_def
      maxTitle_def statusAccepted_def trim_Nil)

lemma isValid_relaxed:
  "isValid (validatePostContent_relaxed post) \<longleftrightarrow> spec_isValid Permissive post"
  by (auto simp: validatePostContent_relaxed_def Let_def spec_isValid_def spec_rules_def
      resolveBody_candidates minBody_def maxTitle_def statusAccepted_def trim_Nil)

lemma blank_title_strict:
  "trim (post_title post) = [] \<Longrightarrow>
     \<not> isValid (validatePostContent post)
     \<and> js ''Missing or empty title'' \<in> set (issues (validatePostContent post))"
  by (simp add: validatePostContent_def Let_def)

lemma blank_title_relaxed:
  "trim (post_title post) = [] \<Longrightarrow>
     \<not> isValid (validatePostContent_relaxed post)
     \<and> js ''Missing or empty title'' \<in> set (issues (validatePostContent_relaxed post))"
  by (simp add: validatePostContent_relaxed_def Let_def)

lemmas post_eval = emptyPost_def withContent_def contentText_def orEmpty_def

text \<open>
  Claim C3, as stated, fails for the strict validator: the claim resolves the body from the
  candidate fields in both modes, but the strict validator reads \<open>content.text\<close> only. A
  published record with a good title, no \<open>content\<close> and a summary of 66 code units passes
  every rule of the claim in strict mode and is rejected by the strict validator.
\<close>

theorem validatePostContent_counterexample:
  "spec_isValid Strict summaryOnlyPost \<and> \<not> isValid (validatePostContent summaryOnlyPost)"
  by (simp add: summaryOnlyPost_def spec_isValid_def spec_rules_def resolveBody_def
      candidateFields_def validatePostContent_def minBody_def maxTitle_def statusAccepted_def
      Let_def post_eval clean_eval)

text \<open>
  Claim C3, amended: the strict validator accepts a record exactly when the rules hold in
  strict mode with the body taken from the primary field \<open>content.text\<close> alone; the relaxed
  validator accepts a record exactly when the rules hold in permissive mode with the body
  resolved from the candidate fields; and under either validator a record whose title is
  empty (or blank) is invalid with the issue \<open>Missing or empty title\<close>.
\<close>

theorem validatePostContent_rules:
  "(isValid (validatePostContent post) \<longleftrightarrow>
      spec_rules Strict (post_title post) (resolveBody [contentText post]) (post_status post))
   \<and> (isValid (validatePostContent_relaxed post) \<longleftrightarrow> spec_isValid Permissive post)
   \<and> (trim (post_title post) = [] \<longrightarrow>
        \<not> isValid (validatePostContent post)
        \<and> js ''Missing or empty title'' \<in> set (issues (validatePostContent post))
        \<and> \<not> isValid (validatePostContent_relaxed post)
        \<and> js ''Missing or empty title'' \<in> set (issues (validatePostContent_relaxed post)))"
  using isValid_strict isValid_relaxed blank_title_strict blank_title_relaxed by blast

theorem validatePostContent_rules_witness:
  "trim (post_title summaryOnlyPost) \<noteq> []
   \<and> isValid (validatePostContent_relaxed summaryOnlyPost)
   \<and> trim (post_title emptyPost) = []
   \<and> \<not> isValid (validatePostContent emptyPost)
   \<and> js ''Missing or empty title'' \<in> set (issues (validatePostContent emptyPost))
   \<and> js ''Missing or empty title'' \<in> set (issues (validatePostContent_relaxed emptyPost))"
proof -
  have a: "trim (post_title emptyPost) = []" by (simp add: emptyPost_def trim_def)
  have b: "spec_isValid Permissive summaryOnlyPost"
    by (simp add: summaryOnlyPost_def spec_isValid_def spec_rules_def resolveBody_def
        candidateFields_def minBody_def maxTitle_def statusAccepted_def post_eval clean_eval)
  have c: "trim (post_title summaryOnlyPost) \<noteq> []"
    by (simp add: summaryOnlyPost_def post_eval clean_eval)
  show ?thesis
    using validatePostContent_rules [of emptyPost] validatePostContent_rules [of summaryOnlyPost] a b c
    by blast
qed

section \<open>Properties of the relational transformer\<close>

lemma valid_clean_length:
  "isValid (validatePostContent post) \<Longrightarrow>
     50 \<le> length (cleanHtmlContent (orEmpty (contentText post)))"
  by (auto simp: validatePostContent_def Let_def split: if_splits)

text \<open>
  Claim C7 (summary derivation): for a record that passes validation and has neither a
  summary nor an SEO description, the transformation succeeds and the summary of the
  article is the cleaned body when that has at most 200 code units, and its first 200
  code units followed by \<open>...\<close> when it is longer.
\<close>

theorem transformPost_summary:
  assumes "isValid (validatePostContent post)"
    and "orEmpty (post_summary post) = []"
    and "orEmpty (post_seo_description post) = []"
  shows "\<exists>d. tr_success (transformPost post channelId)
           \<and> tr_data (transformPost post channelId) = Some d
           \<and> art_content d = cleanHtmlContent (orEmpty (contentText post))
           \<and> art_summary d =
               Some (if length (art_content d) > 200 then take 200 (art_content d) @ js ''...''
                     else art_content d)"
proof -
  have "50 \<le> length (cleanHtmlContent (orEmpty (contentText post)))"
    using assms(1) by (rule valid_clean_length)
  then have "cleanHtmlContent (orEmpty (contentText post)) \<noteq> []" by auto
  then show ?thesis
    using assms by (simp add: transformPost_def Let_def js_def)
qed

lemma longPost_valid:
  "isValid (validatePostContent longPost)
   \<and> orEmpty (post_summary longPost) = [] \<and> orEmpty (post_seo_description longPost) = []"
  by code_simp

lemma longPost_clean:
  "cleanHtmlContent (orEmpty (contentText longPost)) =
     js ''The council met on Monday and approved the new budget for schools. ''
     @ js ''The council met on Tuesday and approved the new budget for roads. ''
     @ js ''The council met on Friday and approved the new budget for parks. ''
     @ js ''The council will meet again next month.''"
  by code_simp

theorem transformPost_summary_witness:
  "isValid (validatePostContent longPost)
   \<and> orEmpty (post_summary longPost) = [] \<and> orEmpty (post_seo_description longPost) = []
   \<and> (\<exists>d. tr_data (transformPost longPost (js ''c1'')) = Some d
         \<and> length (art_content d) = 237
         \<and> art_summary d =
             Some (js ''The council met on Monday and approved the new budget for schools. ''
                   @ js ''The council met on Tuesday and approved the new budget for roads. ''
                   @ js ''The council met on Friday and approved the new budget for parks. Th''
                   @ js ''...''))"
proof -
  obtain d where d: "tr_data (transformPost longPost (js ''c1'')) = Some d"
    and c: "art_content d = cleanHtmlContent (orEmpty (contentText longPost))"
    and s: "art_summary d =
               Some (if length (art_content d) > 200 then take 200 (art_content d) @ js ''...''
                     else art_content d)"
    using transformPost_summary [of longPost "js ''c1''"] longPost_valid by blast
  have l: "length (art_content d) = 237"
    unfolding c longPost_clean by (simp add: js_def)
  have t: "take 200 (art_content d) =
             js ''The council met on Monday and approved the new budget for schools. ''
             @ js ''The council met on Tuesday and approved the new budget for roads. ''
             @ js ''The council met on Friday and approved the new budget for parks. Th''"
    unfolding c longPost_clean by (simp add: js_def)
  from s l t have "art_summary d =
             Some (js ''The council met on Monday and approved the new budget for schools. ''
                   @ js ''The council met on Tuesday and approved the new budget for roads. ''
                   @ js ''The council met on Friday and approved the new budget for parks. Th''
                   @ js ''...'')"
    by simp
  with d l longPost_valid show ?thesis by blast
qed

section \<open>Properties of batch processing\<close>


lemma processTransformed_tally:
  "processTransformed env post t (r, st) = (r', st') \<Longrightarrow>
     tally r' = tally r + 1 \<and> length (errors r') + failed r = length (errors r) + failed r'"
  by (auto simp: processTransformed_def recordFailure_def tally_def
      split: if_splits option.splits)

lemma processPosts_tally:
  "processPosts env ch posts (r, st) = (r', st') \<Longrightarrow>
     tally r' = tally r + length posts
     \<and> length (errors r') + failed r = length (errors r) + failed r'"
proof (induction posts arbitrary: r st)
  case Nil
  then show ?case by simp
next
  case (Cons p ps)
  obtain r1 st1 where s: "processPost env ch p (r, st) = (r1, st1)"
    by (cases "processPost env ch p (r, st)")
  then have 1: "tally r1 = tally r + 1
      \<and> length (errors r1) + failed r = length (errors r) + failed r1"
    unfolding processPost_def by (rule processTransformed_tally)
  from Cons.prems s have "processPosts env ch ps (r1, st1) = (r', st')" by simp
  then have "tally r' = tally r1 + length ps
      \<and> length (errors r') + failed r1 = length (errors r1) + failed r'"
    by (rule Cons.IH)
  with 1 show ?case by simp
qed


lemma transformPost_try_typed:
  "transformPost_throws env post = None \<Longrightarrow>
     transformPost_try env post ch = transformPost post ch"
  by (simp add: transformPost_try_def)




lemma batchTurn_fetched:
  assumes "fetchPosts env (batchOptions batchSize options (lv_lastId lv)) st = (Inr posts, st1)"
    and "posts \<noteq> []"
  shows "\<exists>lv' st'. batchTurn env batchSize options ch (lv, st) = (True, lv', st')
           \<and> job_status (lv_job lv') = job_status (lv_job lv)
           \<and> job_error_message (lv_job lv') = job_error_message (lv_job lv)
           \<and> job_last_processed_id (lv_job lv') = Some (post_id (last posts))
           \<and> lv_lastId lv' = Some (post_id (last posts))"
  using assms
  by (auto simp: batchTurn_def Let_def split: prod.splits)

lemma sourceEnv_fetch:
  "fetchPosts sourceEnv (batchOptions 50 theOptions (lv_lastId startVars)) connectedState =
     (Inr [shortPost, emptyPost, rejectedPost],
      snd (fetchPosts sourceEnv (batchOptions 50 theOptions (lv_lastId startVars)) connectedState))"
  by code_simp

lemma sourceEnv_batch:
  "fst (processBatch sourceEnv [shortPost, rejectedPost, emptyPost, shortPost] (js ''c1'')
          connectedState)
     = \<lparr> successful = 2, failed = 1, skipped = 1, errors = [js ''Post p3: duplicate key''] \<rparr>"
  by code_simp









text \<open>
  Claim C2 (resumption cursor): when \<open>fetchPosts\<close> returns a non-empty batch, the job's
  \<open>last_processed_id\<close> after the turn of the loop that processes the batch is the
  identifier of the last record of the batch. Nothing is assumed about the records, the
  stores or the results of the batch, so the cursor does not depend on how many records
  were skipped or failed.
\<close>

theorem batchTurn_cursor:
  assumes "fetchPosts env (batchOptions batchSize options (lv_lastId lv)) st = (Inr posts, st1)"
    and "posts \<noteq> []"
  shows "job_last_processed_id
           (lv_job (fst (snd (batchTurn env batchSize options channelId (lv, st)))))
         = Some (post_id (last posts))"
  using batchTurn_fetched [OF assms, of channelId] by auto

theorem batchTurn_cursor_witness:
  "fetchPosts sourceEnv (batchOptions 50 theOptions (lv_lastId startVars)) connectedState =
     (Inr [shortPost, emptyPost, rejectedPost],
      snd (fetchPosts sourceEnv (batchOptions 50 theOptions (lv_lastId startVars)) connectedState))
   \<and> job_last_processed_id
        (lv_job (fst (snd (batchTurn sourceEnv 50 theOptions (js ''c1'') (startVars, connectedState)))))
      = Some (js ''p3'')"
proof -
  have n: "[shortPost, emptyPost, rejectedPost] \<noteq> []" by simp
  have l: "post_id (last [shortPost, emptyPost, rejectedPost]) = js ''p3''"
    by (simp add: rejectedPost_def)
  show ?thesis
    using batchTurn_cursor [OF sourceEnv_fetch n, of "js ''c1''"] sourceEnv_fetch l by simp
qed

text \<open>
  Claim C10 (counter partition): the three counters returned by \<open>processBatch\<close> add up to
  the number of posts of the batch, and there is one error message per failed record.
\<close>

theorem processBatch_partition:
  "successful (fst (processBatch env posts channelId st))
     + failed (fst (processBatch env posts channelId st))
     + skipped (fst (processBatch env posts channelId st)) = length posts
   \<and> length (errors (fst (processBatch env posts channelId st)))
       = failed (fst (processBatch env posts channelId st))"
proof -
  obtain r' st' where s: "processPosts env channelId posts (noResults, st) = (r', st')"
    by (cases "processPosts env channelId posts (noResults, st)")
  have f: "fst (processBatch env posts channelId st) = r'" by (simp add: processBatch_def s)
  from processPosts_tally [OF s] show ?thesis
    unfolding f by (simp add: tally_def noResults_def)
qed

theorem processBatch_partition_witness:
  "successful (fst (processBatch sourceEnv [shortPost, rejectedPost, emptyPost, shortPost]
                      (js ''c1'') connectedState))
     + failed (fst (processBatch sourceEnv [shortPost, rejectedPost, emptyPost, shortPost]
                      (js ''c1'') connectedState))
     + skipped (fst (processBatch sourceEnv [shortPost, rejectedPost, emptyPost, shortPost]
                      (js ''c1'') connectedState))
     = 4
   \<and> length (errors (fst (processBatch sourceEnv [shortPost, rejectedPost, emptyPost, shortPost]
                             (js ''c1'') connectedState)))
     = 1"
  using processBatch_partition [of sourceEnv "[shortPost, rejectedPost, emptyPost, shortPost]"
      "js ''c1''" connectedState]
    sourceEnv_batch by simp

section \<open>Properties of the embedding generator\<close>

lemma generateSimpleEmbedding_ok:
  "vs_vectorSize svc < 2 ^ 32 \<Longrightarrow> \<exists>v. generateSimpleEmbedding env svc text = Inr v"
  by (simp add: generateSimpleEmbedding_def Let_def)

lemma generateEmbedding_cases:
  "generateEmbedding env svc text st =
     (if vs_openai svc then
        (case embeddings_create env (calls st) text of
           Inr (v # vs) \<Rightarrow> (Inr v, issue (EmbeddingsCreate text) st)
         | _ \<Rightarrow> (generateSimpleEmbedding env svc text, issue (EmbeddingsCreate text) st))
      else (generateSimpleEmbedding env svc text, st))"
  by (cases "generateSimpleEmbedding env svc text")
     (auto simp: generateEmbedding_def Let_def split: sum.splits list.splits)

lemma generateEmbedding_total:
  assumes "vs_vectorSize svc < 2 ^ 32"
  shows "\<exists>v st'. generateEmbedding env svc text st = (Inr v, st')"
  using generateSimpleEmbedding_ok [OF assms, of env "text"]
  by (auto simp: generateEmbedding_cases split: sum.splits list.splits)

lemma generateEmbedding_fallback:
  assumes "\<not> vs_openai svc \<or> (\<forall>v vs. embeddings_create env (calls st) text \<noteq> Inr (v # vs))"
  shows "fst (generateEmbedding env svc text st) = generateSimpleEmbedding env svc text"
  using assms by (auto simp: generateEmbedding_cases split: sum.splits list.splits)

lemma addPoint_fallback:
  assumes "vs_vectorSize svc < 2 ^ 32"
    and "\<forall>h t. isl (embeddings_create env h t)"
    and "vec_published_at article \<noteq> InvalidDate"
  shows "\<exists>st'. addPoint env svc (points, st) article
                 = (points @ [fallbackPoint env svc article], st')"
proof -
  obtain v where v: "generateSimpleEmbedding env svc (contentForEmbedding article) = Inr v"
    using generateSimpleEmbedding_ok [OF assms(1)] by blast
  have "isl (embeddings_create env (calls st) (contentForEmbedding article))"
    using assms(2) by blast
  then obtain e where e: "embeddings_create env (calls st) (contentForEmbedding article) = Inl e"
    by (cases "embeddings_create env (calls st) (contentForEmbedding article)") auto
  obtain t where t: "vec_published_at article = TimeValue t"
    using assms(3) by (cases "vec_published_at article") auto
  show ?thesis
    by (simp add: addPoint_def generateEmbedding_cases e v t toISOString_def fallbackPoint_def
        theTime_def)
qed

lemma foldl_addPoint_fallback:
  assumes "vs_vectorSize svc < 2 ^ 32"
    and "\<forall>h t. isl (embeddings_create env h t)"
    and "\<forall>a \<in> set articles. vec_published_at a \<noteq> InvalidDate"
  shows "\<exists>st'. foldl (addPoint env svc) (points, st) articles
                  = (points @ map (fallbackPoint env svc) articles, st')"
  using assms(3)
proof (induction articles arbitrary: points st)
  case Nil
  show ?case by simp
next
  case (Cons a as)
  then have "vec_published_at a \<noteq> InvalidDate" by simp
  from addPoint_fallback [OF assms(1) assms(2) this]
  obtain st1 where 1: "addPoint env svc (points, st) a = (points @ [fallbackPoint env svc a], st1)"
    by blast
  from Cons.prems have "\<forall>a \<in> set as. vec_published_at a \<noteq> InvalidDate" by simp
  from Cons.IH [OF this]
  obtain st2 where "foldl (addPoint env svc) (points @ [fallbackPoint env svc a], st1) as
            = ((points @ [fallbackPoint env svc a]) @ map (fallbackPoint env svc) as, st2)"
    by blast
  with 1 show ?case by simp
qed

lemma storeArticlesBatch_fallback:
  assumes "vs_vectorSize svc < 2 ^ 32"
    and "\<forall>h t. isl (embeddings_create env h t)"
    and "\<forall>a \<in> set articles. vec_published_at a \<noteq> InvalidDate"
    and "\<forall>h n ps. qdrant_upsert env h n ps = None"
    and "articles \<noteq> []"
  shows "\<exists>st1. storeArticlesBatch env svc articles st =
           (Inr (),
            issue (QdrantUpsert (vs_collectionName svc) (map (fallbackPoint env svc) articles)) st1)"
proof -
  obtain st1 where f: "foldl (addPoint env svc) ([], st) articles
                  = ([] @ map (fallbackPoint env svc) articles, st1)"
    using foldl_addPoint_fallback [OF assms(1,2,3)] by blast
  show ?thesis
    using assms(4,5) by (auto simp: storeArticlesBatch_def f)
qed

text \<open>
  Claim C5 (embedding errors never propagate). For a service whose vector size is an array
  length: \<open>generateEmbedding\<close> always returns a vector, never a throw; when there is no
  client, or the remote request does not deliver a first embedding, what it returns is the
  local embedding of the text; and when every remote request fails, a non-empty batch of
  articles with valid dates is written to an index that accepts the write as one upsert
  holding a point for every article, each with the local embedding, and
  \<open>storeArticlesBatch\<close> returns normally.
\<close>

theorem generateEmbedding_never_raises:
  assumes "vs_vectorSize svc < 2 ^ 32"
  shows "(\<exists>v st'. generateEmbedding env svc text st = (Inr v, st'))
    \<and> (\<not> vs_openai svc \<or> (\<forall>v vs. embeddings_create env (calls st) text \<noteq> Inr (v # vs)) \<longrightarrow>
         fst (generateEmbedding env svc text st) = generateSimpleEmbedding env svc text)
    \<and> ((\<forall>h t. isl (embeddings_create env h t))
         \<and> (\<forall>a \<in> set articles. vec_published_at a \<noteq> InvalidDate)
         \<and> (\<forall>h n ps. qdrant_upsert env h n ps = None)
         \<and> articles \<noteq> [] \<longrightarrow>
         (\<exists>st1. storeArticlesBatch env svc articles st =
            (Inr (),
             issue (QdrantUpsert (vs_collectionName svc) (map (fallbackPoint env svc) articles))
               st1)))"
  using generateEmbedding_total [OF assms] generateEmbedding_fallback
    storeArticlesBatch_fallback [OF assms]
  by blast

theorem generateEmbedding_never_raises_witness:
  "vs_vectorSize keyedService < 2 ^ 32
   \<and> vs_openai keyedService
   \<and> (\<forall>h t. isl (embeddings_create calmEnv h t))
   \<and> (\<exists>v st'. generateEmbedding calmEnv keyedService (js ''Budget vote'') connectedState = (Inr v, st'))
   \<and> fst (generateEmbedding calmEnv keyedService (js ''Budget vote'') connectedState)
       = generateSimpleEmbedding calmEnv keyedService (js ''Budget vote'')
   \<and> (\<exists>st1. storeArticlesBatch calmEnv keyedService [article1, article2] connectedState =
         (Inr (),
          issue (QdrantUpsert (js ''news_embeddings'')
                   [fallbackPoint calmEnv keyedService article1,
                    fallbackPoint calmEnv keyedService article2]) st1))"
proof -
  have s: "vs_vectorSize keyedService < 2 ^ 32" "vs_openai keyedService"
    "vs_collectionName keyedService = js ''news_embeddings''"
    by (simp_all add: keyedService_def newVectorService_def orEmpty_def js_def)
  have e: "\<forall>h t. isl (embeddings_create calmEnv h t)" by (simp add: calmEnv_def)
  have u: "\<forall>h n ps. qdrant_upsert calmEnv h n ps = None" by (simp add: calmEnv_def)
  have d: "\<forall>a \<in> set [article1, article2]. vec_published_at a \<noteq> InvalidDate"
    by (simp add: article1_def article2_def)
  have n: "\<forall>v vs. embeddings_create calmEnv (calls connectedState) (js ''Budget vote'') \<noteq> Inr (v # vs)"
    by (simp add: calmEnv_def)
  note inst = generateEmbedding_never_raises [OF s(1), of calmEnv "js ''Budget vote''" connectedState
      "[article1, article2]"]
  show ?thesis
    using inst s e u d n by simp
qed

section \<open>A text on which the local embedding is not normalised\<close>

lemma nadd_NaN [simp]: "nadd NaN x = NaN" "nadd x NaN = NaN"
  by (auto simp: nadd_def split: number.splits)

lemma nmul_NaN [simp]: "nmul NaN x = NaN" "nmul x NaN = NaN"
  by (auto simp: nmul_def split: number.splits)

lemma ndiv_NaN [simp]: "ndiv NaN x = NaN"
  by (simp add: ndiv_def)

lemma length_addFeature [simp]: "length (addFeature n h w v i) = length v"
  by (simp add: addFeature_def Let_def)

lemma addFeature_keeps_NaN:
  "p < length v \<Longrightarrow> v ! p = NaN \<Longrightarrow> addFeature n h w v i ! p = NaN"
  by (auto simp: addFeature_def Let_def nth_list_update)

lemma foldl_addFeature_keeps:
  "p < length v \<Longrightarrow> v ! p = NaN \<Longrightarrow>
     length (foldl (addFeature n h w) v is) = length v \<and> foldl (addFeature n h w) v is ! p = NaN"
  by (induction "is" arbitrary: v) (auto simp: addFeature_keeps_NaN)

lemma addWord_NaN:
  assumes "0 < length v" and "n = length v"
  shows "length (addWord n k v (w, NotNumeric)) = length v
         \<and> addWord n k v (w, NotNumeric) ! (simpleHash w mod n) = NaN"
proof -
  let ?p = "simpleHash w mod n"
  have u: "[0..<5] = 0 # [1..<5]" by (simp add: upt_rec)
  have p: "?p < length v" using assms by simp
  let ?v1 = "addFeature n (simpleHash w) NaN v 0"
  have 1: "?v1 ! ?p = NaN" using p by (simp add: addFeature_def Let_def)
  have 2: "?p < length ?v1" using p by simp
  from foldl_addFeature_keeps [OF 2 1, of n "simpleHash w" NaN "[1..<5]"]
  show ?thesis
    by (simp add: addWord_def freqNumber_def u)
qed

lemma length_fillStatistic [simp]: "length (fillStatistic a b v i) = length v"
  by (simp add: fillStatistic_def)

lemma fillStatistic_keeps_NaN:
  "p < length v \<Longrightarrow> v ! p = NaN \<Longrightarrow> fillStatistic a b v i ! p = NaN"
  by (auto simp: fillStatistic_def nth_list_update)

lemma foldl_fillStatistic_keeps:
  "p < length v \<Longrightarrow> v ! p = NaN \<Longrightarrow>
     length (foldl (fillStatistic a b) v is) = length v
     \<and> foldl (fillStatistic a b) v is ! p = NaN"
  by (induction "is" arbitrary: v) (auto simp: fillStatistic_keeps_NaN)

lemma foldl_squares_NaN: "foldl (\<lambda>sum val. nadd sum (nmul val val)) NaN v = NaN"
  by (induction v) auto

lemma sumSquares_NaN:
  "NaN \<in> set v \<Longrightarrow> foldl (\<lambda>sum val. nadd sum (nmul val val)) s v = NaN"
proof (induction v arbitrary: s)
  case Nil
  then show ?case by simp
next
  case (Cons a v)
  then show ?case by (cases "a = NaN") (auto simp: foldl_squares_NaN)
qed

lemma constructor_words:
  "foldl countWord [] (splitWords [] (toLowerCase calmEnv (js ''constructor'')))
     = [(js ''constructor'', NotNumeric)]"
  by code_simp

lemma defaultService_size: "vs_vectorSize defaultService = 1536"
  by (simp add: defaultService_def newVectorService_def)

text \<open>
  Claim C4 (shape of the fallback embedding) asks for an L2 norm of 1.0 on every non-empty
  text. On the text \<open>constructor\<close> the frequency table reads the inherited property
  \<open>constructor\<close> of the plain object, the count of the word becomes a string, its
  feature \<open>NaN\<close>, and so does the magnitude; the test \<open>magnitude > 0\<close> then fails and the
  vector is returned as it is: of length 1536, holding \<open>NaN\<close>, and not of norm 1.
\<close>

theorem generateSimpleEmbedding_constructor:
  "\<exists>v. generateSimpleEmbedding calmEnv defaultService (js ''constructor'') = Inr v
        \<and> length v = 1536 \<and> NaN \<in> set v \<and> \<not> unitNorm v"
proof -
  let ?D = "1536 :: nat"
  let ?p = "simpleHash (js ''constructor'') mod ?D"
  let ?e1 = "addWord ?D (length (splitWords [] (toLowerCase calmEnv (js ''constructor''))))
               (replicate ?D (Num 0)) (js ''constructor'', NotNumeric)"
  let ?e2 = "foldl (fillStatistic (length (js ''constructor''))
                     (length (remdups (codePoints (toLowerCase calmEnv (js ''constructor''))))))
               ?e1 [0..<min 100 ?D]"
  have a: "length ?e1 = ?D \<and> ?e1 ! ?p = NaN"
    using addWord_NaN [of "replicate ?D (Num 0)" ?D] by simp
  have p: "?p < ?D" by simp
  have b: "length ?e2 = ?D \<and> ?e2 ! ?p = NaN"
    using foldl_fillStatistic_keeps [of ?p ?e1] a p by simp
  then have n: "NaN \<in> set ?e2" using p by (metis nth_mem)
  then have s: "sumSquares ?e2 = NaN" unfolding sumSquares_def by (rule sumSquares_NaN)
  have g: "generateSimpleEmbedding calmEnv defaultService (js ''constructor'') = Inr ?e2"
    using s
    by (simp add: generateSimpleEmbedding_def Let_def defaultService_size constructor_words
        sumSquares_def nsqrt_def isPositive_def)
  have u: "\<not> unitNorm ?e2" using s by (simp add: unitNorm_def nsqrt_def)
  from g b n u show ?thesis by blast
qed

section \<open>Properties of the event categorizer\<close>

text \<open>
  Claim C6 (event categorization): \<open>categorizeEvent\<close> evaluates the ordered rules politics,
  economy, sports, technology, health against the lower-cased text in which the title and
  the content are joined (by one blank, as the template literal \<open>`${title} ${content}`\<close>
  builds it); the first rule that matches gives the category; the category is \<open>general\<close>
  when no rule matches; and a text that matches a politics keyword and an economy keyword
  is classified as \<open>politics\<close>.
\<close>

theorem categorizeEvent_rules:
  "categorizeEvent env title content
     = firstMatch eventRules (toLowerCase env (title @ [SP] @ content))
   \<and> map fst eventRules
       = [js ''politics'', js ''economy'', js ''sports'', js ''technology'', js ''health'']
   \<and> ((\<forall>rule \<in> set eventRules. \<not> regexTest (snd rule) (toLowerCase env (title @ [SP] @ content)))
        \<longrightarrow> categorizeEvent env title content = js ''general'')
   \<and> (regexTest politicsKeywords (toLowerCase env (title @ [SP] @ content))
        \<and> regexTest economyKeywords (toLowerCase env (title @ [SP] @ content))
        \<longrightarrow> categorizeEvent env title content = js ''politics'')"
  by (simp add: categorizeEvent_def firstMatch_def eventRules_def Let_def)

lemma dolar_parti:
  "regexTest politicsKeywords (toLowerCase calmEnv (js ''Dolar ve parti'' @ [SP] @ js ''yorum''))
   \<and> regexTest economyKeywords (toLowerCase calmEnv (js ''Dolar ve parti'' @ [SP] @ js ''yorum''))"
  by code_simp

lemma hava_durumu:
  "list_all (\<lambda>rule. \<not> regexTest (snd rule)
       (toLowerCase calmEnv (js ''Hava durumu'' @ [SP] @ js ''yorum''))) eventRules"
  by code_simp

theorem categorizeEvent_rules_witness:
  "regexTest politicsKeywords (toLowerCase calmEnv (js ''Dolar ve parti'' @ [SP] @ js ''yorum''))
   \<and> regexTest economyKeywords (toLowerCase calmEnv (js ''Dolar ve parti'' @ [SP] @ js ''yorum''))
   \<and> categorizeEvent calmEnv (js ''Dolar ve parti'') (js ''yorum'') = js ''politics''
   \<and> list_all (\<lambda>rule. \<not> regexTest (snd rule)
         (toLowerCase calmEnv (js ''Hava durumu'' @ [SP] @ js ''yorum''))) eventRules
   \<and> categorizeEvent calmEnv (js ''Hava durumu'') (js ''yorum'') = js ''general''"
  using categorizeEvent_rules [of calmEnv "js ''Dolar ve parti''" "js ''yorum''"]
    categorizeEvent_rules [of calmEnv "js ''Hava durumu''" "js ''yorum''"]
    dolar_parti hava_durumu
  unfolding list_all_iff by blast

section \<open>Properties of dry runs\<close>

subsection \<open>The relational path in a dry run\<close>

lemma traffic_simps [simp]:
  "traffic (issue MongoConnect st) = traffic st"
  "traffic (issue MongoClose st) = traffic st"
  "traffic (issue MongoPing st) = traffic st"
  "traffic (issue (MongoCountDocuments q) st) = traffic st"
  "traffic (issue (MongoFind q sk li) st) = traffic st"
  "traffic (issue ChannelsGetAll st) = traffic st"
  "traffic (issue (ChannelsCreate n) st) = traffic st"
  "traffic (issue RandomUUID st) = traffic st"
  "traffic (issue QdrantGetCollections st) = traffic st"
  "traffic (issue (QdrantCreateCollection n k) st) = traffic st"
  "traffic (issue (QdrantCreatePayloadIndex n f) st) = traffic st"
  "traffic (issue (QdrantGetCollection n) st) = traffic st"
  "traffic (st\<lparr> mongo_client := b \<rparr>) = traffic st"
  "traffic (st\<lparr> mongo_db := b \<rparr>) = traffic st"
  "traffic (st\<lparr> defaultChannelId := d \<rparr>) = traffic st"
  by (simp_all add: traffic_def issue_def)

lemma fetches_simps [simp]:
  "fetches (issue MongoConnect st) = fetches st"
  "fetches (issue MongoClose st) = fetches st"
  "fetches (issue MongoPing st) = fetches st"
  "fetches (issue (MongoCountDocuments q) st) = fetches st"
  "fetches (issue ChannelsGetAll st) = fetches st"
  "fetches (issue (ChannelsCreate n) st) = fetches st"
  "fetches (st\<lparr> mongo_client := b \<rparr>) = fetches st"
  "fetches (st\<lparr> mongo_db := b \<rparr>) = fetches st"
  "fetches (st\<lparr> defaultChannelId := d \<rparr>) = fetches st"
  by (simp_all add: fetches_def issue_def)

lemma connect_quiet:
  "traffic (snd (connect env st)) = traffic st \<and> fetches (snd (connect env st)) = fetches st"
  by (simp add: connect_def split: option.splits)

lemma disconnect_quiet:
  "traffic (snd (disconnect env st)) = traffic st \<and> fetches (snd (disconnect env st)) = fetches st"
  by (simp add: disconnect_def split: option.splits)

lemma ensureDefaultChannel_quiet:
  "traffic (snd (ensureDefaultChannel env name st)) = traffic st
   \<and> fetches (snd (ensureDefaultChannel env name st)) = fetches st"
  by (simp add: ensureDefaultChannel_def Let_def split: option.splits sum.splits)

lemma getPostCount_quiet:
  "traffic (snd (getPostCount env a b st)) = traffic st
   \<and> fetches (snd (getPostCount env a b st)) = fetches st"
  by (simp add: getPostCount_def)

lemma getPostCount_value:
  "getPostCount env a b st = (Inr n, st') \<Longrightarrow>
     mongo_countDocuments env (calls st) (countQuery a b) = Inr n"
  by (auto simp: getPostCount_def split: if_splits)

lemma migrateBody_dryRun:
  assumes "mo_dryRun options = Some True"
  shows "\<exists>r st'. migrateBody fuel env batchSize options st = Some (r, st')
           \<and> traffic st' = traffic st \<and> fetches st' = fetches st
           \<and> (\<forall>job. r = Inr job \<longrightarrow>
                 job_status job = Completed \<and> job_processed_records job = 0
                 \<and> job_failed_records job = 0 \<and> job_last_processed_id job = None
                 \<and> (\<exists>h. mongo_countDocuments env h
                            (countQuery (mo_fromDate options) (mo_toDate options))
                          = Inr (job_total_records job)))"
proof -
  let ?name = "case mo_channelName options of None \<Rightarrow> js ''MongoDB Import'' | Some n \<Rightarrow> n"
  obtain r1 st1 where e: "ensureDefaultChannel env ?name st = (r1, st1)"
    by (cases "ensureDefaultChannel env ?name st")
  have q1: "traffic st1 = traffic st \<and> fetches st1 = fetches st"
    using ensureDefaultChannel_quiet [of env ?name st] e by simp
  show ?thesis
  proof (cases r1)
    case (Inl err)
    with e q1 show ?thesis by (simp add: migrateBody_def Let_def)
  next
    case (Inr channelId)
    obtain r2 st2 where c: "getPostCount env (mo_fromDate options) (mo_toDate options) st1 = (r2, st2)"
      by (cases "getPostCount env (mo_fromDate options) (mo_toDate options) st1")
    have q2: "traffic st2 = traffic st \<and> fetches st2 = fetches st"
      using getPostCount_quiet [of env "mo_fromDate options" "mo_toDate options" st1] c q1 by simp
    show ?thesis
    proof (cases r2)
      case (Inl err)
      with e c Inr q2 show ?thesis by (simp add: migrateBody_def Let_def)
    next
      case (Inr n)
      note n = this
      have "mongo_countDocuments env (calls st1) (countQuery (mo_fromDate options) (mo_toDate options)) = Inr n"
        using getPostCount_value c n by blast
      then have "\<exists>h. mongo_countDocuments env h (countQuery (mo_fromDate options) (mo_toDate options)) = Inr n"
        by blast
      with e c \<open>r1 = Inr channelId\<close> n q2 assms show ?thesis
        by (simp add: migrateBody_def Let_def)
    qed
  qed
qed

lemma migrateAllPosts_dryRun:
  assumes "mo_dryRun options = Some True"
  shows "\<exists>r st'. migrateAllPosts fuel env batchSize options st = Some (r, st')
           \<and> traffic st' = traffic st \<and> fetches st' = fetches st
           \<and> (\<forall>job. r = Inr job \<longrightarrow>
                 job_status job = Completed \<and> job_processed_records job = 0
                 \<and> job_failed_records job = 0 \<and> job_last_processed_id job = None
                 \<and> (\<exists>h. mongo_countDocuments env h
                            (countQuery (mo_fromDate options) (mo_toDate options))
                          = Inr (job_total_records job)))"
proof -
  obtain r0 st0 where c: "connect env st = (r0, st0)" by (cases "connect env st")
  have q0: "traffic st0 = traffic st \<and> fetches st0 = fetches st"
    using connect_quiet [of env st] c by simp
  show ?thesis
  proof (cases r0)
    case (Inl err)
    with c q0 show ?thesis by (simp add: migrateAllPosts_def)
  next
    case (Inr u)
    obtain r st1 where b: "migrateBody fuel env batchSize options st0 = Some (r, st1)"
      and q1: "traffic st1 = traffic st0 \<and> fetches st1 = fetches st0"
      and j: "\<forall>job. r = Inr job \<longrightarrow>
                 job_status job = Completed \<and> job_processed_records job = 0
                 \<and> job_failed_records job = 0 \<and> job_last_processed_id job = None
                 \<and> (\<exists>h. mongo_countDocuments env h
                            (countQuery (mo_fromDate options) (mo_toDate options))
                          = Inr (job_total_records job))"
      using migrateBody_dryRun [OF assms, of fuel env batchSize st0] by blast
    obtain r2 st2 where d: "disconnect env st1 = (r2, st2)" by (cases "disconnect env st1")
    have q2: "traffic st2 = traffic st \<and> fetches st2 = fetches st"
      using disconnect_quiet [of env st1] d q1 q0 by simp
    show ?thesis
    proof (cases r2)
      case (Inl err)
      with c Inr b d q2 show ?thesis by (simp add: migrateAllPosts_def)
    next
      case (Inr u2)
      with c \<open>r0 = Inr u\<close> b d q2 j show ?thesis by (simp add: migrateAllPosts_def)
    qed
  qed
qed

subsection \<open>The vector path in a dry run\<close>

lemma healthCheck_quiet: "traffic (snd (healthCheck env st)) = traffic st"
  by (simp add: healthCheck_def split: option.splits)

lemma createPayloadIndexes_quiet:
  "traffic (snd (createPayloadIndexes env name idx st)) = traffic st"
  by (induction env name idx st rule: createPayloadIndexes.induct)
     (auto split: option.splits)

lemma initializeCollection_quiet: "traffic (snd (initializeCollection env svc st)) = traffic st"
  by (simp add: initializeCollection_def Let_def createPayloadIndexes_quiet
      split: sum.splits option.splits)

lemma getPostCount_connecting_quiet:
  "traffic (snd (getPostCount_connecting env a b st)) = traffic st"
proof -
  have h: "traffic (snd (healthCheck env st)) = traffic st" by (rule healthCheck_quiet)
  have c: "traffic (snd (connect env s)) = traffic s" for s using connect_quiet by simp
  have g: "traffic (snd (getPostCount env a b s)) = traffic s" for s using getPostCount_quiet by simp
  show ?thesis
    using h c [of "snd (healthCheck env st)"] g
    by (auto simp: getPostCount_connecting_def split: prod.splits sum.splits bool.splits)
qed

lemma fetchPosts_quiet: "traffic (snd (fetchPosts env options st)) = traffic st"
  by (simp add: fetchPosts_def Let_def)

lemma transformPostToVector_quiet: "traffic (snd (transformPostToVector env post st)) = traffic st"
  by (simp add: transformPostToVector_def Let_def split: option.splits)

lemma getCollectionStats_quiet: "traffic (snd (getCollectionStats env svc st)) = traffic st"
  by (simp add: getCollectionStats_def split: sum.splits)

lemma transformInto_dry:
  assumes "transformInto env (r, arts, st) post = (r', arts', st')" and "pending r (length arts)"
  shows "traffic st' = traffic st \<and> pending r' (length arts')"
proof -
  obtain t s1 where t: "transformPostToVector env post st = (t, s1)"
    by (cases "transformPostToVector env post st")
  have "traffic s1 = traffic st" using transformPostToVector_quiet [of env post st] t by simp
  with assms t show ?thesis
    by (auto simp: transformInto_def Let_def pending_def split: if_splits option.splits)
qed

lemma foldl_transformInto_dry:
  assumes "foldl (transformInto env) (r, arts, st) posts = (r', arts', st')"
    and "pending r (length arts)"
  shows "traffic st' = traffic st \<and> pending r' (length arts')"
  using assms
proof (induction posts arbitrary: r arts st)
  case Nil
  then show ?case by simp
next
  case (Cons p ps)
  obtain r1 a1 s1 where 1: "transformInto env (r, arts, st) p = (r1, a1, s1)"
    by (cases "transformInto env (r, arts, st) p") auto
  from transformInto_dry [OF 1 Cons.prems(2)]
  have 2: "traffic s1 = traffic st" and 3: "pending r1 (length a1)" by simp_all
  from Cons.prems(1) 1 have "foldl (transformInto env) (r1, a1, s1) ps = (r', arts', st')" by simp
  from Cons.IH [OF this 3] 2 show ?case by simp
qed

lemma vectorTurn_dry:
  assumes "isDryRun options" and "pending r 0"
  shows "traffic (snd (vectorTurn env svc batchSize options cap (r, off) st)) = traffic st
         \<and> (\<forall>again r' off'. fst (vectorTurn env svc batchSize options cap (r, off) st)
                               = Inr (again, r', off') \<longrightarrow> pending r' 0)"
proof -
  let ?fo = "\<lparr> fo_limit = Some (min batchSize (cap - mr_processed r)), fo_skip = Some off,
                fo_fromDate = map_option fst (vo_dateRange options),
                fo_toDate = map_option snd (vo_dateRange options),
                fo_status = None, fo_lastId = None \<rparr>"
  obtain x s1 where f: "fetchPosts env ?fo st = (x, s1)" by (cases "fetchPosts env ?fo st")
  have q1: "traffic s1 = traffic st" using fetchPosts_quiet [of env ?fo st] f by simp
  show ?thesis
  proof (cases x)
    case (Inl e)
    with f q1 show ?thesis by (simp add: vectorTurn_def Let_def)
  next
    case (Inr posts)
    obtain r1 arts s2 where t: "foldl (transformInto env) (r, [], s1) posts = (r1, arts, s2)"
      by (cases "foldl (transformInto env) (r, [], s1) posts") auto
    have "pending r (length ([] :: NewsArticleVector list))" using assms(2) by simp
    from foldl_transformInto_dry [OF t this]
    have q2: "traffic s2 = traffic s1" and p: "pending r1 (length arts)" by simp_all
    from f Inr t q1 q2 p assms show ?thesis
      by (auto simp: vectorTurn_def Let_def pending_def)
  qed
qed

lemma vectorLoop_dry:
  "isDryRun options \<Longrightarrow> pending (fst vars) 0 \<Longrightarrow>
     traffic (snd (vectorLoop env svc batchSize options count cap vars st)) = traffic st
     \<and> (\<forall>r'. fst (vectorLoop env svc batchSize options count cap vars st) = Inr r'
               \<longrightarrow> pending r' 0)"
proof (induction env svc batchSize options count cap vars st rule: vectorLoop.induct)
  case (1 env svc batchSize options totalPosts effectiveLimit vars st)
  obtain r off where v: "vars = (r, off)" by (cases vars)
  show ?case
  proof (cases "snd vars < totalPosts \<and> mr_processed (fst vars) < effectiveLimit")
    case False
    have "vectorLoop env svc batchSize options totalPosts effectiveLimit vars st
            = (Inr (fst vars), st)"
      by (subst vectorLoop.simps) (simp only: False if_False)
    then show ?thesis using "1.prems" by simp
  next
    case True
    obtain x s1 where t: "vectorTurn env svc batchSize options effectiveLimit vars st = (x, s1)"
      by (cases "vectorTurn env svc batchSize options effectiveLimit vars st")
    have d: "traffic s1 = traffic st
         \<and> (\<forall>again r' off'. x = Inr (again, r', off') \<longrightarrow> pending r' 0)"
      using vectorTurn_dry [of options r env svc batchSize effectiveLimit off st] "1.prems" t v
      by simp
    show ?thesis
    proof (cases x)
      case (Inl e)
      with True t d show ?thesis by (simp add: vectorLoop.simps)
    next
      case (Inr y)
      obtain again r' off' where y: "y = (again, r', off')" by (cases y)
      have p: "pending r' 0" using d Inr y by simp
      show ?thesis
      proof (cases again)
        case False
        with True t d Inr y p show ?thesis by (simp add: vectorLoop.simps)
      next
        case True
        note again = this
        have "traffic (snd (vectorLoop env svc batchSize options totalPosts effectiveLimit (r', off') s1))
                = traffic s1
              \<and> (\<forall>r''. fst (vectorLoop env svc batchSize options totalPosts effectiveLimit (r', off') s1)
                          = Inr r'' \<longrightarrow> pending r'' 0)"
          using "1.IH" [OF \<open>snd vars < totalPosts \<and> mr_processed (fst vars) < effectiveLimit\<close>
              t [symmetric] Inr y [symmetric] again "1.prems"(1)] p
          by simp
        with \<open>snd vars < totalPosts \<and> mr_processed (fst vars) < effectiveLimit\<close> t d Inr y again
        show ?thesis
          by (simp add: vectorLoop.simps [of env svc batchSize options totalPosts effectiveLimit vars st])
      qed
    qed
  qed
qed

lemma migrateToVectorOnly_dry:
  assumes "isDryRun options"
  shows "traffic (snd (migrateToVectorOnly env svc batchSize options st)) = traffic st
         \<and> (\<forall>r. fst (migrateToVectorOnly env svc batchSize options st) = Inr r
                  \<longrightarrow> mr_inserted r + mr_skipped r + mr_errors r = mr_processed r)"
proof -
  obtain c s1 where h: "healthCheck env st = (c, s1)" by (cases "healthCheck env st")
  have q1: "traffic s1 = traffic st" using healthCheck_quiet [of env st] h by simp
  obtain x2 s2 where c: "(if c then (Inr (), s1) else connect env s1) = (x2, s2)"
    by (cases "if c then (Inr (), s1) else connect env s1")
  have q2: "traffic s2 = traffic st"
    using c q1 connect_quiet [of env s1] by (auto split: if_splits)
  show ?thesis
  proof (cases x2)
    case (Inl e)
    with h c q2 show ?thesis by (simp add: migrateToVectorOnly_def)
  next
    case (Inr u2)
    note x2 = this
    obtain x3 s3 where i: "initializeCollection env svc s2 = (x3, s3)"
      by (cases "initializeCollection env svc s2")
    have q3: "traffic s3 = traffic st" using initializeCollection_quiet [of env svc s2] i q2 by simp
    show ?thesis
    proof (cases x3)
      case (Inl e)
      with h c x2 i q3 show ?thesis by (simp add: migrateToVectorOnly_def)
    next
      case (Inr u3)
      note x3 = this
      let ?a = "map_option fst (vo_dateRange options)"
      let ?b = "map_option snd (vo_dateRange options)"
      obtain x4 s4 where g: "getPostCount_connecting env ?a ?b s3 = (x4, s4)"
        by (cases "getPostCount_connecting env ?a ?b s3")
      have q4: "traffic s4 = traffic st"
        using getPostCount_connecting_quiet [of env ?a ?b s3] g q3 by simp
      show ?thesis
      proof (cases x4)
        case (Inl e)
        with h c x2 i x3 g q4 show ?thesis by (simp add: migrateToVectorOnly_def)
      next
        case (Inr count)
        note x4 = this
        let ?vars = "(emptyResult, case vo_offset options of None \<Rightarrow> 0 | Some n \<Rightarrow> n)"
        obtain x5 s5 where l: "vectorLoop env svc batchSize options count (effectiveLimitOf options)
                                  ?vars s4 = (x5, s5)"
          by (cases "vectorLoop env svc batchSize options count (effectiveLimitOf options) ?vars s4")
        have "pending (fst ?vars) 0" by (simp add: pending_def emptyResult_def)
        from vectorLoop_dry [OF assms this, of env svc batchSize count "effectiveLimitOf options" s4] l q4
        have q5: "traffic s5 = traffic st" and p: "\<forall>r'. x5 = Inr r' \<longrightarrow> pending r' 0" by simp_all
        show ?thesis
        proof (cases x5)
          case (Inl e)
          with h c x2 i x3 g x4 l q5 show ?thesis by (simp add: migrateToVectorOnly_def)
        next
          case (Inr r)
          with h c x2 i x3 g x4 l q5 p getCollectionStats_quiet [of env svc s5] show ?thesis
            by (simp add: migrateToVectorOnly_def pending_def)
        qed
      qed
    qed
  qed
qed

subsection \<open>A dry run against a real run\<close>

lemma quiet_issue:
  "quiet (calls (issue c st)) = (if recordTraffic c then quiet (calls st) else quiet (calls st) @ [c])"
  by (simp add: quiet_def issue_def)

lemma similar_refl: "similar s s"
  by (simp add: similar_def)

lemma similar_issue: "\<not> recordTraffic c \<Longrightarrow> similar s t \<Longrightarrow> similar (issue c s) (issue c t)"
  by (simp add: similar_def quiet_issue) (simp add: issue_def)

lemma similar_left: "recordTraffic c \<Longrightarrow> similar s t \<Longrightarrow> similar (issue c s) t"
  by (simp add: similar_def quiet_issue) (simp add: issue_def)

lemma similar_fields:
  "similar s t \<Longrightarrow> similar (s\<lparr> mongo_client := b \<rparr>) (t\<lparr> mongo_client := b \<rparr>)"
  "similar s t \<Longrightarrow> similar (s\<lparr> mongo_db := b \<rparr>) (t\<lparr> mongo_db := b \<rparr>)"
  "similar s t \<Longrightarrow> similar (s\<lparr> mongo_client := b, mongo_db := b' \<rparr>) (t\<lparr> mongo_client := b, mongo_db := b' \<rparr>)"
  by (simp_all add: similar_def)

lemma blind_calls:
  assumes "blind env" and "similar s t"
  shows "mongo_connect env (calls s) = mongo_connect env (calls t)"
    and "mongo_ping env (calls s) = mongo_ping env (calls t)"
    and "mongo_countDocuments env (calls s) = mongo_countDocuments env (calls t)"
    and "mongo_find env (calls s) = mongo_find env (calls t)"
    and "random_uuid env (calls s) = random_uuid env (calls t)"
    and "qdrant_getCollections env (calls s) = qdrant_getCollections env (calls t)"
    and "qdrant_createCollection env (calls s) = qdrant_createCollection env (calls t)"
    and "qdrant_createPayloadIndex env (calls s) = qdrant_createPayloadIndex env (calls t)"
    and "qdrant_getCollection env (calls s) = qdrant_getCollection env (calls t)"
proof -
  have q: "quiet (calls s) = quiet (calls t)" using assms(2) by (simp add: similar_def)
  show "mongo_connect env (calls s) = mongo_connect env (calls t)"
    using assms(1) q unfolding blind_def by metis
  show "mongo_ping env (calls s) = mongo_ping env (calls t)"
    using assms(1) q unfolding blind_def by metis
  show "mongo_countDocuments env (calls s) = mongo_countDocuments env (calls t)"
    using assms(1) q unfolding blind_def by metis
  show "mongo_find env (calls s) = mongo_find env (calls t)"
    using assms(1) q unfolding blind_def by metis
  show "random_uuid env (calls s) = random_uuid env (calls t)"
    using assms(1) q unfolding blind_def by metis
  show "qdrant_getCollections env (calls s) = qdrant_getCollections env (calls t)"
    using assms(1) q unfolding blind_def by metis
  show "qdrant_createCollection env (calls s) = qdrant_createCollection env (calls t)"
    using assms(1) q unfolding blind_def by metis
  show "qdrant_createPayloadIndex env (calls s) = qdrant_createPayloadIndex env (calls t)"
    using assms(1) q unfolding blind_def by metis
  show "qdrant_getCollection env (calls s) = qdrant_getCollection env (calls t)"
    using assms(1) q unfolding blind_def by metis
qed

lemma similar_db: "similar s t \<Longrightarrow> mongo_db s = mongo_db t \<and> mongo_client s = mongo_client t"
  by (simp add: similar_def)

lemma healthCheck_similar:
  assumes "blind env" and "similar s t"
  shows "fst (healthCheck env s) = fst (healthCheck env t)
         \<and> similar (snd (healthCheck env s)) (snd (healthCheck env t))"
  using assms similar_db [OF assms(2)] blind_calls(2) [OF assms]
  by (auto simp: healthCheck_def similar_issue split: option.splits)

lemma connect_similar:
  assumes "blind env" and "similar s t"
  shows "fst (connect env s) = fst (connect env t)
         \<and> similar (snd (connect env s)) (snd (connect env t))"
  using assms blind_calls(1) [OF assms]
  by (auto simp: connect_def similar_issue similar_fields split: option.splits)

lemma createPayloadIndexes_similar:
  assumes "blind env"
  shows "similar s t \<Longrightarrow>
         fst (createPayloadIndexes env name idx s) = fst (createPayloadIndexes env name idx t)
         \<and> similar (snd (createPayloadIndexes env name idx s))
                    (snd (createPayloadIndexes env name idx t))"
proof (induction idx arbitrary: s t)
  case Nil
  then show ?case by simp
next
  case (Cons a idx)
  obtain field schema where a: "a = (field, schema)" by (cases a)
  have e: "qdrant_createPayloadIndex env (calls s) = qdrant_createPayloadIndex env (calls t)"
    using blind_calls(8) [OF assms Cons.prems] .
  have i: "similar (issue (QdrantCreatePayloadIndex name field) s)
                   (issue (QdrantCreatePayloadIndex name field) t)"
    using Cons.prems by (simp add: similar_issue)
  show ?case
    using Cons.IH [OF i] e i by (simp add: a split: option.splits)
qed

lemma initializeCollection_similar:
  assumes "blind env" and "similar s t"
  shows "fst (initializeCollection env svc s) = fst (initializeCollection env svc t)
         \<and> similar (snd (initializeCollection env svc s)) (snd (initializeCollection env svc t))"
proof -
  have e1: "qdrant_getCollections env (calls s) = qdrant_getCollections env (calls t)"
    using blind_calls(6) [OF assms] .
  have i1: "similar (issue QdrantGetCollections s) (issue QdrantGetCollections t)"
    using assms(2) by (simp add: similar_issue)
  note b = blind_calls [OF assms(1) i1]
  have i2: "similar (issue c (issue QdrantGetCollections s)) (issue c (issue QdrantGetCollections t))"
    if "\<not> recordTraffic c" for c
    using that i1 by (simp add: similar_issue)
  show ?thesis
    using e1 i1 b(7) b(9) i2 createPayloadIndexes_similar [OF assms(1) i2]
    by (auto simp: initializeCollection_def Let_def split: sum.splits option.splits)
qed

lemma getPostCount_similar:
  assumes "blind env" and "similar s t"
  shows "fst (getPostCount env a b s) = fst (getPostCount env a b t)
         \<and> similar (snd (getPostCount env a b s)) (snd (getPostCount env a b t))"
  using assms similar_db [OF assms(2)] blind_calls(3) [OF assms]
  by (auto simp: getPostCount_def similar_issue)

lemma getPostCount_connecting_similar:
  assumes "blind env" and "similar s t"
  shows "fst (getPostCount_connecting env a b s) = fst (getPostCount_connecting env a b t)
         \<and> similar (snd (getPostCount_connecting env a b s))
                    (snd (getPostCount_connecting env a b t))"
proof (cases "mongo_db s")
  case True
  then have "mongo_db t" using similar_db [OF assms(2)] by simp
  with True getPostCount_similar [OF assms] show ?thesis
    by (simp add: getPostCount_connecting_def)
next
  case False
  then have ft: "\<not> mongo_db t" using similar_db [OF assms(2)] by simp
  obtain c s1 where hs: "healthCheck env s = (c, s1)" by (cases "healthCheck env s")
  obtain c' t1 where ht: "healthCheck env t = (c', t1)" by (cases "healthCheck env t")
  have 1: "c = c'" "similar s1 t1" using healthCheck_similar [OF assms] hs ht by simp_all
  obtain x s2 where cs: "connect env s1 = (x, s2)" by (cases "connect env s1")
  obtain x' t2 where ct: "connect env t1 = (x', t2)" by (cases "connect env t1")
  have 2: "x = x'" "similar s2 t2" using connect_similar [OF assms(1) 1(2)] cs ct by simp_all
  show ?thesis
    using False ft hs ht 1 cs ct 2 getPostCount_similar [OF assms(1) 1(2)]
      getPostCount_similar [OF assms(1) 2(2)]
    by (auto simp: getPostCount_connecting_def split: sum.splits)
qed

lemma fetchPosts_similar:
  assumes "blind env" and "similar s t"
  shows "fst (fetchPosts env fo s) = fst (fetchPosts env fo t)
         \<and> similar (snd (fetchPosts env fo s)) (snd (fetchPosts env fo t))"
  using assms similar_db [OF assms(2)] blind_calls(4) [OF assms]
  by (auto simp: fetchPosts_def Let_def similar_issue)

lemma transformPostToVector_similar:
  assumes "blind env" and "similar s t"
  shows "fst (transformPostToVector env post s) = fst (transformPostToVector env post t)
         \<and> similar (snd (transformPostToVector env post s))
                    (snd (transformPostToVector env post t))"
  using assms blind_calls(5) [OF assms]
  by (auto simp: transformPostToVector_def Let_def similar_issue split: option.splits)

lemma getCollectionStats_similar:
  assumes "blind env" and "similar s t"
  shows "similar (snd (getCollectionStats env svc s)) (snd (getCollectionStats env svc t))"
  using assms blind_calls(9) [OF assms]
  by (auto simp: getCollectionStats_def similar_issue split: sum.splits)

lemma transformInto_similar:
  assumes "blind env" and "similar s t"
  shows "\<exists>r' a' s' t'. transformInto env (r, a, s) post = (r', a', s')
           \<and> transformInto env (r, a, t) post = (r', a', t') \<and> similar s' t'"
proof -
  obtain x s1 where 1: "transformPostToVector env post s = (x, s1)"
    by (cases "transformPostToVector env post s")
  obtain x' t1 where 2: "transformPostToVector env post t = (x', t1)"
    by (cases "transformPostToVector env post t")
  have "x = x'" "similar s1 t1" using transformPostToVector_similar [OF assms, of post] 1 2 by simp_all
  with 1 2 show ?thesis
    by (auto simp: transformInto_def Let_def split: option.splits)
qed

lemma foldl_transformInto_similar:
  assumes "blind env"
  shows "similar s t \<Longrightarrow>
         \<exists>r' a' s' t'. foldl (transformInto env) (r, a, s) posts = (r', a', s')
           \<and> foldl (transformInto env) (r, a, t) posts = (r', a', t') \<and> similar s' t'"
proof (induction posts arbitrary: r a s t)
  case Nil
  then show ?case by simp
next
  case (Cons p ps)
  from transformInto_similar [OF assms Cons.prems, of r a p]
  obtain r1 a1 s1 t1 where 1: "transformInto env (r, a, s) p = (r1, a1, s1)"
    "transformInto env (r, a, t) p = (r1, a1, t1)" "similar s1 t1"
    by blast
  from Cons.IH [OF 1(3), of r1 a1] 1 show ?case by simp
qed

lemma generateEmbedding_left: "similar (snd (generateEmbedding env svc txt s)) s"
  by (auto simp: generateEmbedding_cases similar_left similar_refl split: sum.splits list.splits)

lemma similar_trans: "similar a b \<Longrightarrow> similar b c \<Longrightarrow> similar a c"
  by (simp add: similar_def)

lemma addPoint_left: "similar (snd (addPoint env svc (ps, s) article)) s"
proof -
  obtain x s1 where g: "generateEmbedding env svc (contentForEmbedding article) s = (x, s1)"
    by (cases "generateEmbedding env svc (contentForEmbedding article) s")
  have "similar s1 s" using generateEmbedding_left [of env svc "contentForEmbedding article" s] g by simp
  with g show ?thesis by (auto simp: addPoint_def split: sum.splits)
qed

lemma foldl_addPoint_left: "similar (snd (foldl (addPoint env svc) (ps, s) articles)) s"
proof (induction articles arbitrary: ps s)
  case Nil
  show ?case by (simp add: similar_refl)
next
  case (Cons a as)
  obtain ps1 s1 where 1: "addPoint env svc (ps, s) a = (ps1, s1)"
    by (cases "addPoint env svc (ps, s) a")
  have "similar s1 s" using addPoint_left [of env svc ps s a] 1 by simp
  with Cons.IH [of ps1 s1] 1 show ?case by (auto intro: similar_trans)
qed

lemma storeArticlesBatch_left:
  assumes "accepting env"
  shows "fst (storeArticlesBatch env svc articles s) = Inr ()
         \<and> similar (snd (storeArticlesBatch env svc articles s)) s"
proof -
  obtain ps s1 where f: "foldl (addPoint env svc) ([], s) articles = (ps, s1)"
    by (cases "foldl (addPoint env svc) ([], s) articles")
  have "similar s1 s" using foldl_addPoint_left [of env svc "[]" s articles] f by simp
  with f assms show ?thesis
    by (auto simp: storeArticlesBatch_def accepting_def similar_refl similar_left)
qed

lemma vectorTurn_similar:
  assumes "blind env" and "accepting env" and "similar s t"
  shows "fst (vectorTurn env svc batchSize (realOptions options) cap vars s)
           = fst (vectorTurn env svc batchSize (dryOptions options) cap vars t)
         \<and> similar (snd (vectorTurn env svc batchSize (realOptions options) cap vars s))
                    (snd (vectorTurn env svc batchSize (dryOptions options) cap vars t))"
proof -
  obtain r off where v: "vars = (r, off)" by (cases vars)
  let ?fo = "\<lparr> fo_limit = Some (min batchSize (cap - mr_processed r)), fo_skip = Some off,
                fo_fromDate = map_option fst (vo_dateRange options),
                fo_toDate = map_option snd (vo_dateRange options),
                fo_status = None, fo_lastId = None \<rparr>"
  obtain x s1 where fs: "fetchPosts env ?fo s = (x, s1)" by (cases "fetchPosts env ?fo s")
  obtain x' t1 where ft': "fetchPosts env ?fo t = (x', t1)" by (cases "fetchPosts env ?fo t")
  have 1: "x' = x" "similar s1 t1" using fetchPosts_similar [OF assms(1,3), of ?fo] fs ft' by simp_all
  have ft: "fetchPosts env ?fo t = (x, t1)" using ft' 1(1) by simp
  have o: "vo_dateRange (realOptions options) = vo_dateRange options"
    "vo_dateRange (dryOptions options) = vo_dateRange options"
    "\<not> isDryRun (realOptions options)" "isDryRun (dryOptions options)"
    by (simp_all add: realOptions_def dryOptions_def isDryRun_def)
  show ?thesis
  proof (cases x)
    case (Inl e)
    with fs ft 1(2) o show ?thesis by (simp add: vectorTurn_def v Let_def)
  next
    case (Inr posts)
    from foldl_transformInto_similar [OF assms(1) 1(2), of r "[]" posts]
    obtain r1 arts s2 t2 where 2: "foldl (transformInto env) (r, [], s1) posts = (r1, arts, s2)"
      "foldl (transformInto env) (r, [], t1) posts = (r1, arts, t2)" "similar s2 t2"
      by blast
    obtain y s3 where st: "storeArticlesBatch env svc arts s2 = (y, s3)"
      by (cases "storeArticlesBatch env svc arts s2")
    have 3: "y = Inr ()" "similar s3 s2"
      using storeArticlesBatch_left [OF assms(2), of svc arts s2] st by simp_all
    then have 4: "similar s3 t2" using 2(3) by (auto intro: similar_trans)
    from fs ft Inr 2 st 3 4 o show ?thesis
      by (auto simp: vectorTurn_def v Let_def)
  qed
qed

lemma vectorLoop_similar:
  "blind env \<Longrightarrow> accepting env \<Longrightarrow> ropts = realOptions options \<Longrightarrow> similar s t \<Longrightarrow>
     fst (vectorLoop env svc batchSize ropts count cap vars s)
       = fst (vectorLoop env svc batchSize (dryOptions options) count cap vars t)
     \<and> similar (snd (vectorLoop env svc batchSize ropts count cap vars s))
                (snd (vectorLoop env svc batchSize (dryOptions options) count cap vars t))"
proof (induction env svc batchSize ropts count cap vars s arbitrary: t rule: vectorLoop.induct)
  case (1 env svc batchSize ropts totalPosts effectiveLimit vars st)
  let ?guard = "snd vars < totalPosts \<and> mr_processed (fst vars) < effectiveLimit"
  let ?dopts = "dryOptions options"
  show ?case
  proof (cases ?guard)
    case False
    have "vectorLoop env svc batchSize ropts totalPosts effectiveLimit vars st = (Inr (fst vars), st)"
      by (subst vectorLoop.simps) (simp only: False if_False)
    moreover have "vectorLoop env svc batchSize ?dopts totalPosts effectiveLimit vars t
                     = (Inr (fst vars), t)"
      by (subst vectorLoop.simps) (simp only: False if_False)
    ultimately show ?thesis using "1.prems"(4) by simp
  next
    case True
    obtain x s1 where ts: "vectorTurn env svc batchSize ropts effectiveLimit vars st = (x, s1)"
      by (cases "vectorTurn env svc batchSize ropts effectiveLimit vars st")
    obtain x' t1 where tt': "vectorTurn env svc batchSize ?dopts effectiveLimit vars t = (x', t1)"
      by (cases "vectorTurn env svc batchSize ?dopts effectiveLimit vars t")
    have 2: "x' = x" "similar s1 t1"
      using vectorTurn_similar [OF "1.prems"(1,2,4), of svc batchSize options effectiveLimit vars]
        ts tt' "1.prems"(3) by simp_all
    have tt: "vectorTurn env svc batchSize ?dopts effectiveLimit vars t = (x, t1)"
      using tt' 2(1) by simp
    have us: "vectorLoop env svc batchSize ropts totalPosts effectiveLimit vars st =
        (case x of Inl e \<Rightarrow> (Inl e, s1)
         | Inr (again, vars1) \<Rightarrow>
             if again then vectorLoop env svc batchSize ropts totalPosts effectiveLimit vars1 s1
             else (Inr (fst vars1), s1))"
      by (subst vectorLoop.simps) (simp add: True ts split: sum.splits)
    have ut: "vectorLoop env svc batchSize ?dopts totalPosts effectiveLimit vars t =
        (case x of Inl e \<Rightarrow> (Inl e, t1)
         | Inr (again, vars1) \<Rightarrow>
             if again then vectorLoop env svc batchSize ?dopts totalPosts effectiveLimit vars1 t1
             else (Inr (fst vars1), t1))"
      by (subst vectorLoop.simps) (simp add: True tt split: sum.splits)
    show ?thesis
    proof (cases x)
      case (Inl e)
      with us ut 2(2) show ?thesis by simp
    next
      case (Inr y)
      obtain again vars1 where y: "y = (again, vars1)" by (cases y)
      show ?thesis
      proof (cases again)
        case False
        with us ut Inr y 2(2) show ?thesis by simp
      next
        case True
        note again = this
        from "1.IH" [OF \<open>?guard\<close> ts [symmetric] Inr y [symmetric] again "1.prems"(1,2,3) 2(2)]
        show ?thesis using us ut Inr y again by simp
      qed
    qed
  qed
qed

lemma migrateToVectorOnly_similar:
  assumes "blind env" and "accepting env"
  shows "fst (migrateToVectorOnly env svc batchSize (realOptions options) st)
           = fst (migrateToVectorOnly env svc batchSize (dryOptions options) st)"
proof -
  let ?ro = "realOptions options" and ?do = "dryOptions options"
  have o: "vo_dateRange ?ro = vo_dateRange options" "vo_dateRange ?do = vo_dateRange options"
    "vo_offset ?ro = vo_offset options" "vo_offset ?do = vo_offset options"
    "effectiveLimitOf ?ro = effectiveLimitOf options" "effectiveLimitOf ?do = effectiveLimitOf options"
    by (simp_all add: realOptions_def dryOptions_def effectiveLimitOf_def)
  obtain c s1 where h: "healthCheck env st = (c, s1)" by (cases "healthCheck env st")
  obtain x2 s2 where c: "(if c then (Inr (), s1) else connect env s1) = (x2, s2)"
    by (cases "if c then (Inr (), s1) else connect env s1")
  show ?thesis
  proof (cases x2)
    case (Inl e)
    with h c show ?thesis by (simp add: migrateToVectorOnly_def)
  next
    case (Inr u2)
    note x2 = this
    obtain x3 s3 where i: "initializeCollection env svc s2 = (x3, s3)"
      by (cases "initializeCollection env svc s2")
    show ?thesis
    proof (cases x3)
      case (Inl e)
      with h c x2 i show ?thesis by (simp add: migrateToVectorOnly_def)
    next
      case (Inr u3)
      note x3 = this
      let ?a = "map_option fst (vo_dateRange options)"
      let ?b = "map_option snd (vo_dateRange options)"
      obtain x4 s4 where g: "getPostCount_connecting env ?a ?b s3 = (x4, s4)"
        by (cases "getPostCount_connecting env ?a ?b s3")
      show ?thesis
      proof (cases x4)
        case (Inl e)
        with h c x2 i x3 g o show ?thesis by (simp add: migrateToVectorOnly_def)
      next
        case (Inr n)
        note x4 = this
        let ?vars = "(emptyResult, case vo_offset options of None \<Rightarrow> 0 | Some n \<Rightarrow> n)"
        have l: "fst (vectorLoop env svc batchSize ?ro n (effectiveLimitOf options) ?vars s4)
                 = fst (vectorLoop env svc batchSize ?do n (effectiveLimitOf options) ?vars s4)"
          using vectorLoop_similar [OF assms refl similar_refl] by blast
        obtain y5 s5 where lr: "vectorLoop env svc batchSize ?ro n (effectiveLimitOf options) ?vars s4
                                  = (y5, s5)"
          by (cases "vectorLoop env svc batchSize ?ro n (effectiveLimitOf options) ?vars s4")
        obtain z5 t5 where ld: "vectorLoop env svc batchSize ?do n (effectiveLimitOf options) ?vars s4
                                  = (z5, t5)"
          by (cases "vectorLoop env svc batchSize ?do n (effectiveLimitOf options) ?vars s4")
        have "y5 = z5" using l lr ld by simp
        with h c x2 i x3 g x4 o lr ld show ?thesis
          by (simp add: migrateToVectorOnly_def split: sum.splits)
      qed
    qed
  qed
qed

subsection \<open>Dry runs: the claim and what holds\<close>

text \<open>
  Claim C9, as stated, fails for \<open>migrateAllPosts\<close>: a dry run returns right after the
  count. On a source of three records, of which a real run reports two as processed and
  one as failed, the dry run reports none as processed and none as failed, and it has not
  fetched a single record.
\<close>

theorem migrateAllPosts_dryRun_counterexample:
  "map_option fst (migrateAllPosts 5 sourceEnv 50 theOptions initialState)
     = Some (Inr \<lparr> job_target_channel_id = js ''c1'', job_status = Completed,
                    job_total_records = 3, job_processed_records = 2, job_failed_records = 1,
                    job_error_message = None, job_last_processed_id = Some (js ''p3'') \<rparr>)
   \<and> map_option fst (migrateAllPosts 5 sourceEnv 50 dryOptionsOfJob initialState)
     = Some (Inr \<lparr> job_target_channel_id = js ''c1'', job_status = Completed,
                    job_total_records = 3, job_processed_records = 0, job_failed_records = 0,
                    job_error_message = None, job_last_processed_id = None \<rparr>)
   \<and> fetches (snd (the (migrateAllPosts 5 sourceEnv 50 dryOptionsOfJob initialState))) = []"
  by code_simp

text \<open>
  Claim C9, amended. With \<open>dryRun\<close> set, \<open>migrateAllPosts\<close> always returns, whatever the
  fuel; it fetches no batch and sends no article, no embedding request and no point; the
  job it returns is completed, carries the count of the source as \<open>total_records\<close>, zero
  processed and failed records and no cursor. With \<open>dryRun\<close> set, \<open>migrateToVectorOnly\<close>
  sends no article, no embedding request and no point, and every record that it reports
  as processed is reported as inserted, skipped or in error; when the environment is
  blind and accepting, its result is the result of the real run. Nothing is said about
  the requests that set up the channel and the collection.
\<close>

theorem dryRun_effects:
  "(mo_dryRun options = Some True \<longrightarrow>
      (\<exists>r st'. migrateAllPosts fuel env batchSize options st = Some (r, st')
         \<and> traffic st' = traffic st \<and> fetches st' = fetches st
         \<and> (\<forall>job. r = Inr job \<longrightarrow>
               job_status job = Completed \<and> job_processed_records job = 0
               \<and> job_failed_records job = 0 \<and> job_last_processed_id job = None
               \<and> (\<exists>h. mongo_countDocuments env h
                          (countQuery (mo_fromDate options) (mo_toDate options))
                        = Inr (job_total_records job)))))
   \<and> traffic (snd (migrateToVectorOnly env svc batchSize (dryOptions voptions) st)) = traffic st
   \<and> (\<forall>r. fst (migrateToVectorOnly env svc batchSize (dryOptions voptions) st) = Inr r \<longrightarrow>
          mr_inserted r + mr_skipped r + mr_errors r = mr_processed r)
   \<and> (blind env \<and> accepting env \<longrightarrow>
        fst (migrateToVectorOnly env svc batchSize (dryOptions voptions) st)
          = fst (migrateToVectorOnly env svc batchSize (realOptions voptions) st))"
proof -
  have d: "isDryRun (dryOptions voptions)" by (simp add: isDryRun_def dryOptions_def)
  show ?thesis
    using migrateAllPosts_dryRun [of options fuel env batchSize st]
      migrateToVectorOnly_dry [OF d, of env svc batchSize st]
      migrateToVectorOnly_similar [of env svc batchSize voptions st]
    by simp
qed

lemma sourceEnv_blind: "blind sourceEnv \<and> accepting sourceEnv"
  by (simp add: blind_def accepting_def sourceEnv_def calmEnv_def)

lemma sourceEnv_find:
  "mongo_find sourceEnv h q sk li =
     (if q_id_gt q = None then Inr [shortPost, emptyPost, rejectedPost] else Inr [])"
  by (simp add: sourceEnv_def)

lemma sourceEnv_typed: "transformPostToVector_throws sourceEnv post = None"
  by (simp add: sourceEnv_def calmEnv_def)

lemma transformPostToVector_flags:
  "transformPostToVector_throws env post = None \<Longrightarrow>
   vt_skipped (fst (transformPostToVector env post st)) = (\<not> vectorEligible post)
   \<and> vt_success (fst (transformPostToVector env post st)) = vectorEligible post
   \<and> (vt_data (fst (transformPostToVector env post st)) \<noteq> None) = vectorEligible post"
  by (auto simp: transformPostToVector_def vectorEligible_def skippedBecause_def Let_def)

lemma sourceEnv_eligible:
  "vectorEligible shortPost \<and> vectorEligible rejectedPost \<and> \<not> vectorEligible emptyPost"
  by code_simp

lemma sourceEnv_transforms:
  "vt_success (fst (transformPostToVector sourceEnv shortPost st))
   \<and> \<not> vt_skipped (fst (transformPostToVector sourceEnv shortPost st))
   \<and> vt_data (fst (transformPostToVector sourceEnv shortPost st)) \<noteq> None
   \<and> vt_success (fst (transformPostToVector sourceEnv rejectedPost st))
   \<and> \<not> vt_skipped (fst (transformPostToVector sourceEnv rejectedPost st))
   \<and> vt_data (fst (transformPostToVector sourceEnv rejectedPost st)) \<noteq> None
   \<and> vt_skipped (fst (transformPostToVector sourceEnv emptyPost st))"
  using sourceEnv_eligible transformPostToVector_flags [OF sourceEnv_typed, of shortPost st]
    transformPostToVector_flags [OF sourceEnv_typed, of rejectedPost st]
    transformPostToVector_flags [OF sourceEnv_typed, of emptyPost st]
  by blast

lemma transformInto_cases:
  "transformInto env (r, a, st) post =
     (if vt_skipped (fst (transformPostToVector env post st))
      then (r\<lparr> mr_processed := mr_processed r + 1, mr_skipped := mr_skipped r + 1 \<rparr>, a,
            snd (transformPostToVector env post st))
      else if vt_success (fst (transformPostToVector env post st))
              \<and> vt_data (fst (transformPostToVector env post st)) \<noteq> None
      then (r\<lparr> mr_processed := mr_processed r + 1 \<rparr>,
            a @ [the (vt_data (fst (transformPostToVector env post st)))],
            snd (transformPostToVector env post st))
      else (r\<lparr> mr_processed := mr_processed r + 1, mr_errors := mr_errors r + 1,
              mr_error_details := mr_error_details r @
                [(post_id post,
                  if orEmpty (vt_error (fst (transformPostToVector env post st))) \<noteq> []
                  then orEmpty (vt_error (fst (transformPostToVector env post st)))
                  else js ''Unknown transformation error'')] \<rparr>, a,
            snd (transformPostToVector env post st)))"
  by (cases "transformPostToVector env post st")
     (auto simp: transformInto_def Let_def split: option.splits)

lemma sourceEnv_setup:
  "mongo_db (snd (getPostCount_connecting sourceEnv None None
       (snd (initializeCollection sourceEnv keyedService (snd (connect sourceEnv initialState))))))
   \<and> fst (getPostCount_connecting sourceEnv None None
       (snd (initializeCollection sourceEnv keyedService (snd (connect sourceEnv initialState)))))
      = Inr 3
   \<and> fst (initializeCollection sourceEnv keyedService (snd (connect sourceEnv initialState))) = Inr ()
   \<and> fst (connect sourceEnv initialState) = Inr ()
   \<and> healthCheck sourceEnv initialState = (False, initialState)"
  by code_simp

lemma transformInto_good:
  assumes "vt_success (fst (transformPostToVector env post st))"
    and "\<not> vt_skipped (fst (transformPostToVector env post st))"
    and "vt_data (fst (transformPostToVector env post st)) \<noteq> None"
  shows "\<exists>a st'. transformInto env (r, as, st) post
                   = (r\<lparr> mr_processed := mr_processed r + 1 \<rparr>, as @ [a], st')"
  using assms by (simp add: transformInto_cases)

lemma transformInto_skipped:
  assumes "vt_skipped (fst (transformPostToVector env post st))"
  shows "\<exists>st'. transformInto env (r, as, st) post
                 = (r\<lparr> mr_processed := mr_processed r + 1, mr_skipped := mr_skipped r + 1 \<rparr>, as, st')"
  using assms by (simp add: transformInto_cases)

lemma sourceEnv_batch_transformed:
  "\<exists>a1 a2 st'. foldl (transformInto sourceEnv) (emptyResult, [], st)
                    [shortPost, emptyPost, rejectedPost]
     = (\<lparr> mr_success = True, mr_processed = 3, mr_inserted = 0, mr_skipped = 1, mr_errors = 0,
          mr_error_details = [] \<rparr>, [a1, a2], st')"
proof -
  obtain a1 s1 where 1: "transformInto sourceEnv (emptyResult, [], st) shortPost
      = (emptyResult\<lparr> mr_processed := mr_processed emptyResult + 1 \<rparr>, [] @ [a1], s1)"
    using transformInto_good [of sourceEnv shortPost st emptyResult "[]"] sourceEnv_transforms
    by blast
  let ?r1 = "emptyResult\<lparr> mr_processed := mr_processed emptyResult + 1 \<rparr>"
  obtain s2 where 2: "transformInto sourceEnv (?r1, [a1], s1) emptyPost
      = (?r1\<lparr> mr_processed := mr_processed ?r1 + 1, mr_skipped := mr_skipped ?r1 + 1 \<rparr>, [a1], s2)"
    using transformInto_skipped [of sourceEnv emptyPost s1 ?r1 "[a1]"] sourceEnv_transforms
    by blast
  let ?r2 = "?r1\<lparr> mr_processed := mr_processed ?r1 + 1, mr_skipped := mr_skipped ?r1 + 1 \<rparr>"
  obtain a2 s3 where 3: "transformInto sourceEnv (?r2, [a1], s2) rejectedPost
      = (?r2\<lparr> mr_processed := mr_processed ?r2 + 1 \<rparr>, [a1] @ [a2], s3)"
    using transformInto_good [of sourceEnv rejectedPost s2 ?r2 "[a1]"] sourceEnv_transforms
    by blast
  have "foldl (transformInto sourceEnv) (emptyResult, [], st) [shortPost, emptyPost, rejectedPost]
          = (?r2\<lparr> mr_processed := mr_processed ?r2 + 1 \<rparr>, [a1, a2], s3)"
    using 1 2 3 by simp
  moreover have "?r2\<lparr> mr_processed := mr_processed ?r2 + 1 \<rparr>
      = \<lparr> mr_success = True, mr_processed = 3, mr_inserted = 0, mr_skipped = 1, mr_errors = 0,
          mr_error_details = [] \<rparr>"
    by (simp add: emptyResult_def)
  ultimately show ?thesis by metis
qed

lemma sourceEnv_dry:
  "fst (migrateToVectorOnly sourceEnv keyedService 50 (dryOptions vectorOptions) initialState)
     = Inr \<lparr> mr_success = True, mr_processed = 3, mr_inserted = 2, mr_skipped = 1, mr_errors = 0,
             mr_error_details = [] \<rparr>"
proof -
  let ?s3 = "snd (initializeCollection sourceEnv keyedService (snd (connect sourceEnv initialState)))"
  let ?s4 = "snd (getPostCount_connecting sourceEnv None None ?s3)"
  let ?final = "\<lparr> mr_success = True, mr_processed = 3, mr_inserted = 2, mr_skipped = 1,
                  mr_errors = 0, mr_error_details = [] \<rparr>"
  have o: "vo_dateRange (dryOptions vectorOptions) = None" "vo_offset (dryOptions vectorOptions) = None"
    "effectiveLimitOf (dryOptions vectorOptions) = 500" "isDryRun (dryOptions vectorOptions)"
    by (simp_all add: dryOptions_def vectorOptions_def effectiveLimitOf_def isDryRun_def)
  have db: "mongo_db ?s4" using sourceEnv_setup by blast
  let ?fo = "\<lparr> fo_limit = Some (min 50 (500 - mr_processed emptyResult)), fo_skip = Some 0,
                fo_fromDate = None, fo_toDate = None, fo_status = None, fo_lastId = None \<rparr>"
  obtain s5 where f: "fetchPosts sourceEnv ?fo ?s4 = (Inr [shortPost, emptyPost, rejectedPost], s5)"
    using db by (simp add: fetchPosts_def Let_def sourceEnv_find orEmpty_def)
  obtain a1 a2 s6 where b: "foldl (transformInto sourceEnv) (emptyResult, [], s5)
                    [shortPost, emptyPost, rejectedPost]
     = (\<lparr> mr_success = True, mr_processed = 3, mr_inserted = 0, mr_skipped = 1, mr_errors = 0,
          mr_error_details = [] \<rparr>, [a1, a2], s6)"
    using sourceEnv_batch_transformed [of s5] by blast
  have t: "vectorTurn sourceEnv keyedService 50 (dryOptions vectorOptions) 500 (emptyResult, 0) ?s4
             = (Inr (True, ?final, 0 + min 50 (500 - mr_processed emptyResult)), s6)"
    by (simp add: vectorTurn_def Let_def o f b del: foldl.simps)
  have m: "min 50 (500 - mr_processed emptyResult) = 50" by (simp add: emptyResult_def)
  have l: "fst (vectorLoop sourceEnv keyedService 50 (dryOptions vectorOptions) 3 500 (emptyResult, 0) ?s4)
             = Inr ?final"
    apply (subst vectorLoop.simps)
    apply (subst t)
    apply (simp add: emptyResult_def)
    apply (subst vectorLoop.simps)
    apply simp
    done
  have h: "healthCheck sourceEnv initialState = (False, initialState)"
    and c: "fst (connect sourceEnv initialState) = Inr ()"
    and i: "fst (initializeCollection sourceEnv keyedService (snd (connect sourceEnv initialState)))
              = Inr ()"
    and g: "fst (getPostCount_connecting sourceEnv None None ?s3) = Inr 3"
    using sourceEnv_setup by blast+
  obtain s2 where c2: "connect sourceEnv initialState = (Inr (), s2)"
    using c by (cases "connect sourceEnv initialState") auto
  obtain s3 where i2: "initializeCollection sourceEnv keyedService s2 = (Inr (), s3)"
    using i c2 by (cases "initializeCollection sourceEnv keyedService s2") auto
  obtain s4 where g2: "getPostCount_connecting sourceEnv None None s3 = (Inr 3, s4)"
    using g c2 i2 by (cases "getPostCount_connecting sourceEnv None None s3") auto
  have l2: "fst (vectorLoop sourceEnv keyedService 50 (dryOptions vectorOptions) 3 500 (emptyResult, 0) s4)
             = Inr ?final"
    using l c2 i2 g2 by simp
  obtain s5' where l3: "vectorLoop sourceEnv keyedService 50 (dryOptions vectorOptions) 3 500
                         (emptyResult, 0) s4 = (Inr ?final, s5')"
    using l2 by (cases "vectorLoop sourceEnv keyedService 50 (dryOptions vectorOptions) 3 500
                         (emptyResult, 0) s4") auto
  show ?thesis
    by (simp add: migrateToVectorOnly_def h c2 i2 o g2 l3)
qed

theorem dryRun_effects_witness:
  "mo_dryRun dryOptionsOfJob = Some True
   \<and> (\<exists>r st'. migrateAllPosts 5 sourceEnv 50 dryOptionsOfJob initialState = Some (r, st')
         \<and> traffic st' = traffic initialState \<and> fetches st' = fetches initialState)
   \<and> blind sourceEnv \<and> accepting sourceEnv
   \<and> fst (migrateToVectorOnly sourceEnv keyedService 50 (realOptions vectorOptions) initialState)
     = Inr \<lparr> mr_success = True, mr_processed = 3, mr_inserted = 2, mr_skipped = 1, mr_errors = 0,
             mr_error_details = [] \<rparr>"
proof -
  have o: "mo_dryRun dryOptionsOfJob = Some True" by (simp add: dryOptionsOfJob_def)
  note inst = dryRun_effects [of dryOptionsOfJob 5 sourceEnv 50 initialState keyedService vectorOptions]
  have a: "\<exists>r st'. migrateAllPosts 5 sourceEnv 50 dryOptionsOfJob initialState = Some (r, st')
         \<and> traffic st' = traffic initialState \<and> fetches st' = fetches initialState"
    using inst o by blast
  have b: "fst (migrateToVectorOnly sourceEnv keyedService 50 (realOptions vectorOptions) initialState)
     = Inr \<lparr> mr_success = True, mr_processed = 3, mr_inserted = 2, mr_skipped = 1, mr_errors = 0,
             mr_error_details = [] \<rparr>"
    using inst sourceEnv_blind sourceEnv_dry by simp
  show ?thesis using o a b sourceEnv_blind by blast
qed

end
